theory Spec2Isabelle
  imports Complex_Main "HOL-Library.Sublist"
begin

section \<open>JavaScript values\<close>

text \<open>
  The gallery cache keeps JSON text in the browser's local storage. The values that
  text can denote are modelled by \<open>json\<close>. Numbers are exact: an integer is
  \<open>JNum\<close>, and \<open>JDec q d k\<close> is the number \<open>(10 * q + d) / 10 ^ (k + 1)\<close>
  with a last digit \<open>d\<close> that is not zero, so every decimal that is no integer is
  written in exactly one way. The rounding of doubles and their overflow to an
  infinite value are not part of this development; \<open>Date.now()\<close> yields integers
  far below \<open>2^53\<close>. Strings are byte strings. A JavaScript object is an association
  list in insertion order; a property read takes the last binding of a key, as
  \<open>JSON.parse\<close> does with duplicate keys.

  \<open>undefined\<close> is \<open>None\<close> of \<open>js_value\<close>; \<open>NaN\<close> is \<open>None\<close> of \<open>js_number\<close>
  and of \<open>js_integer\<close>, the type of the numbers that \<open>Date.now()\<close> and
  \<open>parseInt\<close> yield.
\<close>

datatype digit1 = D1 | D2 | D3 | D4 | D5 | D6 | D7 | D8 | D9

datatype json =
    JNull
  | JBool bool
  | JNum int
  | JDec int digit1 nat
  | JStr string
  | JArr "json list"
  | JObj "(string \<times> json) list"

type_synonym js_value = "json option"

type_synonym js_number = "rat option"

type_synonym js_integer = "int option"

text \<open>A thrown value: an \<open>Error\<close> object with the two properties the code inspects.\<close>

record js_error =
  name :: string
  message :: string

definition TypeError :: "string \<Rightarrow> js_error" where
  "TypeError m = \<lparr>name = ''TypeError'', message = m\<rparr>"

definition SyntaxError :: "string \<Rightarrow> js_error" where
  "SyntaxError m = \<lparr>name = ''SyntaxError'', message = m\<rparr>"

definition Error :: "string \<Rightarrow> js_error" where
  "Error m = \<lparr>name = ''Error'', message = m\<rparr>"

subsection \<open>Numbers and their decimal text\<close>

fun digit1_val :: "digit1 \<Rightarrow> int" where
  "digit1_val D1 = 1"
| "digit1_val D2 = 2"
| "digit1_val D3 = 3"
| "digit1_val D4 = 4"
| "digit1_val D5 = 5"
| "digit1_val D6 = 6"
| "digit1_val D7 = 7"
| "digit1_val D8 = 8"
| "digit1_val D9 = 9"

definition digit1_of :: "int \<Rightarrow> digit1" where
  "digit1_of n =
     (if n = 1 then D1 else if n = 2 then D2 else if n = 3 then D3
      else if n = 4 then D4 else if n = 5 then D5 else if n = 6 then D6
      else if n = 7 then D7 else if n = 8 then D8 else D9)"

text \<open>The integer \<open>m\<close> of \<open>JDec q d k\<close>, which denotes \<open>m / 10 ^ (k + 1)\<close>.\<close>

definition mantissa :: "int \<Rightarrow> digit1 \<Rightarrow> int" where
  "mantissa q d = 10 * q + digit1_val d"

text \<open>The number \<open>m / 10 ^ k\<close> as a value: trailing zeros of the fraction are cut.\<close>

fun decimal :: "int \<Rightarrow> nat \<Rightarrow> json" where
  "decimal m 0 = JNum m"
| "decimal m (Suc k) =
     (if m mod 10 = 0 then decimal (m div 10) k
      else JDec (m div 10) (digit1_of (m mod 10)) k)"

text \<open>The number \<open>m * 10 ^ e\<close>, as a value and as a number.\<close>

definition scaled_value :: "int \<Rightarrow> int \<Rightarrow> json" where
  "scaled_value m e = (if 0 \<le> e then JNum (m * 10 ^ nat e) else decimal m (nat (- e)))"

definition scaled :: "int \<Rightarrow> int \<Rightarrow> rat" where
  "scaled m e = (if 0 \<le> e then of_int (m * 10 ^ nat e) else of_int m / 10 ^ nat (- e))"

definition is_digit :: "char \<Rightarrow> bool" where
  "is_digit c \<longleftrightarrow> (48::int) \<le> of_char c \<and> of_char c \<le> (57::int)"

definition is_hex_digit :: "char \<Rightarrow> bool" where
  "is_hex_digit c \<longleftrightarrow> is_digit c
     \<or> ((97::int) \<le> of_char c \<and> of_char c \<le> (102::int))
     \<or> ((65::int) \<le> of_char c \<and> of_char c \<le> (70::int))"

definition digit_val :: "char \<Rightarrow> int" where
  "digit_val c =
     (if is_digit c then of_char c - 48
      else if (97::int) \<le> of_char c then of_char c - 87
      else of_char c - 55)"

definition digit_char :: "int \<Rightarrow> char" where
  "digit_char d = char_of (48 + d)"

definition radix_val :: "int \<Rightarrow> string \<Rightarrow> int" where
  "radix_val R Z = foldl (\<lambda>a c. R * a + digit_val c) 0 Z"

text \<open>The decimal digits of a non-negative integer.\<close>

function nat_toString :: "int \<Rightarrow> string" where
  "nat_toString n =
     (if n < 10 then [digit_char n]
      else nat_toString (n div 10) @ [digit_char (n mod 10)])"
  by pat_completeness auto
termination
  by (relation "measure nat") auto

declare nat_toString.simps [simp del]

definition int_toString :: "int \<Rightarrow> string" where
  "int_toString i =
     (if i < 0 then CHR ''-'' # nat_toString (- i) else nat_toString i)"

text \<open>\<open>Number.prototype.toString\<close>, as in \<open>now.toString()\<close>.\<close>

definition Number_toString :: "js_integer \<Rightarrow> string" where
  "Number_toString x = (case x of None \<Rightarrow> ''NaN'' | Some i \<Rightarrow> int_toString i)"

text \<open>
  White space that \<open>parseInt\<close> and the string-to-number conversion skip (the ASCII
  part of \<open>StrWhiteSpaceChar\<close>).
\<close>

definition is_space :: "char \<Rightarrow> bool" where
  "is_space c \<longleftrightarrow> of_char c \<in> {9, 10, 11, 12, 13, 32 :: int}"

text \<open>
  \<open>parseInt(string)\<close> without a radix: leading white space and one sign are dropped,
  a \<open>0x\<close> prefix selects radix 16, the longest run of digits is the value, and no
  digit at all gives \<open>NaN\<close>.
\<close>

definition parseInt :: "string \<Rightarrow> js_integer" where
  "parseInt str =
     (let S = dropWhile is_space str;
          neg = (S \<noteq> [] \<and> hd S = CHR ''-'');
          S1 = (if S \<noteq> [] \<and> (hd S = CHR ''-'' \<or> hd S = CHR ''+'') then tl S else S);
          hex = (take 2 S1 = ''0x'' \<or> take 2 S1 = ''0X'');
          S2 = (if hex then drop 2 S1 else S1);
          Z = takeWhile (if hex then is_hex_digit else is_digit) S2
      in if Z = [] then None
         else Some ((if neg then - 1 else 1) * radix_val (if hex then 16 else 10) Z))"

text \<open>
  The text of \<open>m / 10 ^ (k + 1)\<close> in positional notation: at least one digit before
  the point and \<open>k + 1\<close> digits after it. (JavaScript switches to exponent notation
  below \<open>10^-6\<close> and from \<open>10^21\<close> on, for the same number.)
\<close>

definition decimal_text :: "int \<Rightarrow> nat \<Rightarrow> string" where
  "decimal_text m k =
     (let ds = nat_toString \<bar>m\<bar>;
          padded = replicate (Suc (Suc k) - length ds) (CHR ''0'') @ ds;
          n = length padded - Suc k
      in (if m < 0 then ''-'' else []) @ take n padded @ CHR ''.'' # drop n padded)"

text \<open>
  An exponent part \<open>e\<close>, sign, digits at the start of a text: its value and the text
  after it. Without a complete exponent part nothing is consumed.
\<close>

definition scan_exponent :: "string \<Rightarrow> int \<times> string" where
  "scan_exponent cs =
     (let has_e = (cs \<noteq> [] \<and> (hd cs = CHR ''e'' \<or> hd cs = CHR ''E''));
          r = tl cs;
          neg = (r \<noteq> [] \<and> hd r = CHR ''-'');
          r1 = (if r \<noteq> [] \<and> (hd r = CHR ''-'' \<or> hd r = CHR ''+'') then tl r else r);
          xs = takeWhile is_digit r1
      in if has_e \<and> xs \<noteq> []
         then ((if neg then - 1 else 1) * radix_val 10 xs, dropWhile is_digit r1)
         else (0, cs))"

definition is_octal_digit :: "char \<Rightarrow> bool" where
  "is_octal_digit c \<longleftrightarrow> (48::int) \<le> of_char c \<and> of_char c \<le> (55::int)"

definition is_binary_digit :: "char \<Rightarrow> bool" where
  "is_binary_digit c \<longleftrightarrow> c = CHR ''0'' \<or> c = CHR ''1''"

text \<open>
  \<open>ToNumber\<close> on a string (\<open>StringToNumber\<close>): the trimmed text is empty (zero), an
  unsigned integer in radix 16, 8 or 2 with its prefix, or a signed decimal literal
  with an optional fraction and exponent; every other text is \<open>NaN\<close>. The texts
  \<open>Infinity\<close> and \<open>-Infinity\<close>, which denote the infinite values, are \<open>NaN\<close>
  here.
\<close>

definition radix_literal :: "string \<Rightarrow> string \<Rightarrow> (char \<Rightarrow> bool) \<Rightarrow> string \<Rightarrow> bool" where
  "radix_literal lower upper is_dig S \<longleftrightarrow>
     (take 2 S = lower \<or> take 2 S = upper) \<and> drop 2 S \<noteq> [] \<and> list_all is_dig (drop 2 S)"

definition StringToNumber :: "string \<Rightarrow> js_number" where
  "StringToNumber str =
     (let S = rev (dropWhile is_space (rev (dropWhile is_space str)));
          neg = (S \<noteq> [] \<and> hd S = CHR ''-'');
          S1 = (if S \<noteq> [] \<and> (hd S = CHR ''-'' \<or> hd S = CHR ''+'') then tl S else S);
          ip = takeWhile is_digit S1;
          r1 = dropWhile is_digit S1;
          has_frac = (r1 \<noteq> [] \<and> hd r1 = CHR ''.'');
          fp = (if has_frac then takeWhile is_digit (tl r1) else []);
          r2 = (if has_frac then dropWhile is_digit (tl r1) else r1);
          x = fst (scan_exponent r2);
          r3 = snd (scan_exponent r2)
      in if S = [] then Some 0
         else if radix_literal ''0x'' ''0X'' is_hex_digit S
         then Some (of_int (radix_val 16 (drop 2 S)))
         else if radix_literal ''0o'' ''0O'' is_octal_digit S
         then Some (of_int (radix_val 8 (drop 2 S)))
         else if radix_literal ''0b'' ''0B'' is_binary_digit S
         then Some (of_int (radix_val 2 (drop 2 S)))
         else if (ip \<noteq> [] \<or> fp \<noteq> []) \<and> r3 = []
         then Some (scaled ((if neg then - 1 else 1) * radix_val 10 (ip @ fp))
                      (x - int (length fp)))
         else None)"

text \<open>
  \<open>ToString\<close> of a value, as \<open>Array.prototype.join\<close> applies it to the elements of
  an array. An object is converted through its \<open>toString\<close> method; an own property of
  that name read from JSON is not callable and hides the inherited method, which makes
  the conversion throw.
\<close>

fun js_ToString :: "json \<Rightarrow> js_error + string"
  and Array_join :: "json list \<Rightarrow> js_error + string"
where
  "js_ToString JNull = Inr ''null''"
| "js_ToString (JBool b) = Inr (if b then ''true'' else ''false'')"
| "js_ToString (JNum n) = Inr (int_toString n)"
| "js_ToString (JDec q d k) = Inr (decimal_text (mantissa q d) k)"
| "js_ToString (JStr s) = Inr s"
| "js_ToString (JArr xs) = Array_join xs"
| "js_ToString (JObj kvs) =
     (if ''toString'' \<in> fst ` set kvs
      then Inl (TypeError ''Cannot convert object to primitive value'')
      else Inr ''[object Object]'')"
| "Array_join [] = Inr []"
| "Array_join (x # xs) =
     (case (if x = JNull then Inr [] else js_ToString x) of
        Inl e \<Rightarrow> Inl e
      | Inr s \<Rightarrow>
          (case Array_join xs of
             Inl e \<Rightarrow> Inl e
           | Inr r \<Rightarrow> Inr (if xs = [] then s else s @ '','' @ r)))"

text \<open>\<open>ToNumber\<close> of any value; \<open>undefined\<close> converts to \<open>NaN\<close>.\<close>

definition ToNumber :: "js_value \<Rightarrow> js_error + js_number" where
  "ToNumber v =
     (case v of
        None \<Rightarrow> Inr None
      | Some JNull \<Rightarrow> Inr (Some 0)
      | Some (JBool b) \<Rightarrow> Inr (Some (if b then 1 else 0))
      | Some (JNum n) \<Rightarrow> Inr (Some (of_int n))
      | Some (JDec q d k) \<Rightarrow> Inr (Some (of_int (mantissa q d) / 10 ^ Suc k))
      | Some (JStr s) \<Rightarrow> Inr (StringToNumber s)
      | Some x \<Rightarrow> (case js_ToString x of Inl e \<Rightarrow> Inl e | Inr s \<Rightarrow> Inr (StringToNumber s)))"

text \<open>
  A value interpolated into a template literal is converted to a string. The log
  lines of the code have no effect on the state, but those that interpolate a value
  read from JSON can throw through this conversion; they are kept as far as that.
\<close>

definition template_text :: "js_value \<Rightarrow> js_error + string" where
  "template_text v = (case v of None \<Rightarrow> Inr ''undefined'' | Some x \<Rightarrow> js_ToString x)"

text \<open>
  Arithmetic and comparison on numbers, integers or not: \<open>NaN\<close> propagates and
  compares false. \<open>as_number\<close> reads an integer as a number.
\<close>

definition js_sub :: "'a::minus option \<Rightarrow> 'a option \<Rightarrow> 'a option" where
  "js_sub a b = (case (a, b) of (Some x, Some y) \<Rightarrow> Some (x - y) | _ \<Rightarrow> None)"

definition js_add :: "'a::plus option \<Rightarrow> 'a option \<Rightarrow> 'a option" where
  "js_add a b = (case (a, b) of (Some x, Some y) \<Rightarrow> Some (x + y) | _ \<Rightarrow> None)"

definition js_lt :: "'a::ord option \<Rightarrow> 'a option \<Rightarrow> bool" where
  "js_lt a b = (case (a, b) of (Some x, Some y) \<Rightarrow> x < y | _ \<Rightarrow> False)"

definition js_gt :: "'a::ord option \<Rightarrow> 'a option \<Rightarrow> bool" where
  "js_gt a b = js_lt b a"

definition as_number :: "js_integer \<Rightarrow> js_number" where
  "as_number i = map_option of_int i"

text \<open>Truthiness, as tested by \<open>if (x)\<close> and \<open>!x\<close>.\<close>

definition truthy :: "js_value \<Rightarrow> bool" where
  "truthy v =
     (case v of
        None \<Rightarrow> False
      | Some JNull \<Rightarrow> False
      | Some (JBool b) \<Rightarrow> b
      | Some (JNum n) \<Rightarrow> n \<noteq> 0
      | Some (JDec q d k) \<Rightarrow> True
      | Some (JStr s) \<Rightarrow> s \<noteq> []
      | Some _ \<Rightarrow> True)"

text \<open>
  A property read \<open>v.key\<close>: on \<open>null\<close> and \<open>undefined\<close> it throws, on an object it
  yields the last binding of the key, on any other value \<open>undefined\<close>.
\<close>

definition get_prop :: "js_value \<Rightarrow> string \<Rightarrow> js_error + js_value" where
  "get_prop v key =
     (case v of
        None \<Rightarrow> Inl (TypeError ''Cannot read properties of undefined'')
      | Some JNull \<Rightarrow> Inl (TypeError ''Cannot read properties of null'')
      | Some (JObj kvs) \<Rightarrow> Inr (map_of (rev kvs) key)
      | Some _ \<Rightarrow> Inr None)"

subsection \<open>JSON text\<close>

text \<open>
  \<open>JSON.stringify\<close> on a \<open>json\<close> value: compact output, strings quoted with the
  escapes of the standard's \<open>QuoteJSONString\<close>, numbers in positional notation.
\<close>

definition hex_char :: "int \<Rightarrow> char" where
  "hex_char d = (if d < 10 then char_of (48 + d) else char_of (87 + d))"

definition quote_char :: "char \<Rightarrow> string" where
  "quote_char c =
     (if c = CHR 0x22 then [CHR 0x5C, CHR 0x22]
      else if c = CHR 0x5C then [CHR 0x5C, CHR 0x5C]
      else if c = CHR 0x08 then [CHR 0x5C, CHR ''b'']
      else if c = CHR 0x0C then [CHR 0x5C, CHR ''f'']
      else if c = CHR 0x0A then [CHR 0x5C, CHR ''n'']
      else if c = CHR 0x0D then [CHR 0x5C, CHR ''r'']
      else if c = CHR 0x09 then [CHR 0x5C, CHR ''t'']
      else if of_char c < (32::int)
      then [CHR 0x5C, CHR ''u'', CHR ''0'', CHR ''0'',
            hex_char (of_char c div 16), hex_char (of_char c mod 16)]
      else [c])"

definition quote :: "string \<Rightarrow> string" where
  "quote s = CHR 0x22 # concat (map quote_char s) @ [CHR 0x22]"

fun JSON_stringify :: "json \<Rightarrow> string"
  and stringify_elements :: "json list \<Rightarrow> string"
  and stringify_members :: "(string \<times> json) list \<Rightarrow> string"
where
  "JSON_stringify JNull = ''null''"
| "JSON_stringify (JBool b) = (if b then ''true'' else ''false'')"
| "JSON_stringify (JNum n) = int_toString n"
| "JSON_stringify (JDec q d k) = decimal_text (mantissa q d) k"
| "JSON_stringify (JStr s) = quote s"
| "JSON_stringify (JArr xs) = ''['' @ stringify_elements xs @ '']''"
| "JSON_stringify (JObj kvs) = ''{'' @ stringify_members kvs @ ''}''"
| "stringify_elements [] = []"
| "stringify_elements [x] = JSON_stringify x"
| "stringify_elements (x # y # ys) = JSON_stringify x @ '','' @ stringify_elements (y # ys)"
| "stringify_members [] = []"
| "stringify_members [(k, v)] = quote k @ '':'' @ JSON_stringify v"
| "stringify_members ((k, v) # m # ms) =
     quote k @ '':'' @ JSON_stringify v @ '','' @ stringify_members (m # ms)"

text \<open>
  \<open>JSON.parse\<close>: a recursive-descent reader of the JSON grammar. The fuel bounds
  the recursion by the length of the text, which every nesting level shortens. A
  \<open>\u\<close> escape yields the bytes of its code unit.
\<close>

definition is_json_ws :: "char \<Rightarrow> bool" where
  "is_json_ws c \<longleftrightarrow> of_char c \<in> {9, 10, 13, 32 :: int}"

definition skip_ws :: "string \<Rightarrow> string" where
  "skip_ws cs = dropWhile is_json_ws cs"

definition code_unit_bytes :: "int \<Rightarrow> string" where
  "code_unit_bytes n =
     (if n < 128 then [char_of n]
      else if n < 2048 then [char_of (192 + n div 64), char_of (128 + n mod 64)]
      else [char_of (224 + n div 4096), char_of (128 + (n div 64) mod 64),
            char_of (128 + n mod 64)])"

definition unescape :: "char \<Rightarrow> char option" where
  "unescape e =
     (if e = CHR 0x22 then Some (CHR 0x22)
      else if e = CHR 0x5C then Some (CHR 0x5C)
      else if e = CHR ''/'' then Some (CHR ''/'')
      else if e = CHR ''b'' then Some (CHR 0x08)
      else if e = CHR ''f'' then Some (CHR 0x0C)
      else if e = CHR ''n'' then Some (CHR 0x0A)
      else if e = CHR ''r'' then Some (CHR 0x0D)
      else if e = CHR ''t'' then Some (CHR 0x09)
      else None)"

fun parse_chars :: "string \<Rightarrow> (string \<times> string) option" where
  "parse_chars [] = None"
| "parse_chars (c # cs) =
     (if c = CHR 0x22 then Some ([], cs)
      else if c = CHR 0x5C then
        (case cs of
           [] \<Rightarrow> None
         | e # r \<Rightarrow>
             if e = CHR ''u'' then
               (if 4 \<le> length r \<and> list_all is_hex_digit (take 4 r)
                then map_option (\<lambda>(s, t). (code_unit_bytes (radix_val 16 (take 4 r)) @ s, t))
                       (parse_chars (drop 4 r))
                else None)
             else
               (case unescape e of
                  None \<Rightarrow> None
                | Some d \<Rightarrow> map_option (\<lambda>(s, t). (d # s, t)) (parse_chars r)))
      else if of_char c < (32::int) then None
      else map_option (\<lambda>(s, t). (c # s, t)) (parse_chars cs))"

definition parse_number :: "string \<Rightarrow> (json \<times> string) option" where
  "parse_number cs =
     (let neg = (cs \<noteq> [] \<and> hd cs = CHR ''-'');
          r0 = (if neg then tl cs else cs);
          ip = takeWhile is_digit r0;
          r1 = dropWhile is_digit r0;
          has_frac = (r1 \<noteq> [] \<and> hd r1 = CHR ''.'');
          fp = (if has_frac then takeWhile is_digit (tl r1) else []);
          r2 = (if has_frac then dropWhile is_digit (tl r1) else r1);
          x = fst (scan_exponent r2);
          r3 = snd (scan_exponent r2)
      in if ip = [] \<or> (1 < length ip \<and> hd ip = CHR ''0'') \<or> (has_frac \<and> fp = [])
         then None
         else Some (scaled_value ((if neg then - 1 else 1) * radix_val 10 (ip @ fp))
                      (x - int (length fp)), r3))"

fun parse_value :: "nat \<Rightarrow> string \<Rightarrow> (json \<times> string) option"
  and parse_elements :: "nat \<Rightarrow> string \<Rightarrow> (json list \<times> string) option"
  and parse_members :: "nat \<Rightarrow> string \<Rightarrow> ((string \<times> json) list \<times> string) option"
where
  "parse_value 0 cs = None"
| "parse_value (Suc n) cs =
     (case skip_ws cs of
        [] \<Rightarrow> None
      | c # r \<Rightarrow>
          if c = CHR 0x22 then map_option (\<lambda>(s, t). (JStr s, t)) (parse_chars r)
          else if c = CHR ''['' then
            (if skip_ws r \<noteq> [] \<and> hd (skip_ws r) = CHR '']''
             then Some (JArr [], tl (skip_ws r))
             else map_option (\<lambda>(vs, t). (JArr vs, t)) (parse_elements n r))
          else if c = CHR ''{'' then
            (if skip_ws r \<noteq> [] \<and> hd (skip_ws r) = CHR ''}''
             then Some (JObj [], tl (skip_ws r))
             else map_option (\<lambda>(kvs, t). (JObj kvs, t)) (parse_members n r))
          else if take 4 (c # r) = ''null'' then Some (JNull, drop 4 (c # r))
          else if take 4 (c # r) = ''true'' then Some (JBool True, drop 4 (c # r))
          else if take 5 (c # r) = ''false'' then Some (JBool False, drop 5 (c # r))
          else parse_number (c # r))"
| "parse_elements 0 cs = None"
| "parse_elements (Suc n) cs =
     (case parse_value n cs of
        None \<Rightarrow> None
      | Some (v, r) \<Rightarrow>
          (case skip_ws r of
             [] \<Rightarrow> None
           | d # r' \<Rightarrow>
               if d = CHR '','' then map_option (\<lambda>(vs, t). (v # vs, t)) (parse_elements n r')
               else if d = CHR '']'' then Some ([v], r')
               else None))"
| "parse_members 0 cs = None"
| "parse_members (Suc n) cs =
     (case skip_ws cs of
        [] \<Rightarrow> None
      | q # r \<Rightarrow>
          if q \<noteq> CHR 0x22 then None
          else
            (case parse_chars r of
               None \<Rightarrow> None
             | Some (k, r1) \<Rightarrow>
                 (case skip_ws r1 of
                    [] \<Rightarrow> None
                  | col # r2 \<Rightarrow>
                      if col \<noteq> CHR '':'' then None
                      else
                        (case parse_value n r2 of
                           None \<Rightarrow> None
                         | Some (v, r3) \<Rightarrow>
                             (case skip_ws r3 of
                                [] \<Rightarrow> None
                              | d # r4 \<Rightarrow>
                                  if d = CHR '','' then
                                    map_option (\<lambda>(kvs, t). ((k, v) # kvs, t)) (parse_members n r4)
                                  else if d = CHR ''}'' then Some ([(k, v)], r4)
                                  else None)))))"

definition JSON_parse :: "string \<Rightarrow> js_error + json" where
  "JSON_parse text =
     (case parse_value (length text) text of
        None \<Rightarrow> Inl (SyntaxError ''Unexpected token in JSON'')
      | Some (v, rest) \<Rightarrow>
          if skip_ws rest = [] then Inr v
          else Inl (SyntaxError ''Unexpected non-whitespace character after JSON''))"

section \<open>The page's state and the effects of its code\<close>

text \<open>
  Everything the modules share lives in one record:
  \<^item> the origin's local storage, which the browser may refuse to hand out
    (\<open>storage_disabled\<close>: every access through \<open>localStorage\<close> throws) or to
    extend (\<open>storage_full\<close>: \<open>localStorage.setItem\<close> throws);
  \<^item> the module-level variable \<open>CACHE_VERSION\<close> of the cache module;
  \<^item> the \<open>galleryState\<close> object of the state module;
  \<^item> the network: \<open>network w k u\<close> is how the \<open>k\<close>-th call of \<open>fetch\<close>, made
    for the URL \<open>u\<close>, settles (a timeout settles as a rejection with an
    \<open>AbortError\<close>), and \<open>net_log\<close> records the requests sent and the delays
    waited for, in order;
  \<^item> what \<open>new URL(API_ENDPOINTS.GALLERY_IMAGES)\<close> gives for the configured endpoint;
  \<^item> the gallery grid element of the document with its load-more button, if any, and
    whether building the DOM node of a given image throws, and what.

  A piece of code is a function from the state to its outcome and the state it leaves:
  \<open>Inl\<close> is a thrown error, \<open>Inr\<close> a returned value. Each reading of \<open>Date.now()\<close>
  is an explicit argument of the function that takes it.
\<close>

record response =
  status :: int
  body :: string

datatype fetch_outcome = Resolves response | Rejects js_error

record url =
  href :: string
  searchParams :: "(string \<times> string) list"

datatype net_event = Requested url | Waited int

record button =
  textContent :: string
  disabled :: bool

datatype grid_content = Loading | LoadFailed | LoadFailedLater | NoImages | Items json

record grid =
  innerHTML :: grid_content
  load_more_btn :: "button option"

record world =
  localStorage :: "string \<rightharpoonup> string"
  storage_disabled :: bool
  storage_full :: bool
  CACHE_VERSION :: string
  allImages :: json
  nextCursor :: js_value
  hasMore :: js_value
  isLoading :: bool
  network :: "nat \<Rightarrow> url \<Rightarrow> fetch_outcome"
  net_log :: "net_event list"
  GALLERY_IMAGES :: "js_error + url"
  gallery_grid :: "grid option"
  createGalleryItem :: "json \<Rightarrow> js_error option"

type_synonym 'a js = "world \<Rightarrow> (js_error + 'a) \<times> world"

definition js_return :: "'a \<Rightarrow> 'a js" where
  "js_return v = (\<lambda>w. (Inr v, w))"

definition js_throw :: "js_error \<Rightarrow> 'a js" where
  "js_throw e = (\<lambda>w. (Inl e, w))"

definition js_lift :: "js_error + 'a \<Rightarrow> 'a js" where
  "js_lift r = (\<lambda>w. (r, w))"

definition js_bind :: "'a js \<Rightarrow> ('a \<Rightarrow> 'b js) \<Rightarrow> 'b js" where
  "js_bind m f = (\<lambda>w. case m w of (Inl e, w') \<Rightarrow> (Inl e, w') | (Inr v, w') \<Rightarrow> f v w')"

definition try_catch :: "'a js \<Rightarrow> (js_error \<Rightarrow> 'a js) \<Rightarrow> 'a js" where
  "try_catch block handler =
     (\<lambda>w. case block w of (Inl e, w') \<Rightarrow> handler e w' | (Inr v, w') \<Rightarrow> (Inr v, w'))"

subsection \<open>The browser's \<open>localStorage\<close> object\<close>

definition localStorage_getItem :: "string \<Rightarrow> string option js" where
  "localStorage_getItem key =
     (\<lambda>w. if storage_disabled w
          then (Inl \<lparr>name = ''SecurityError'', message = ''The operation is insecure.''\<rparr>, w)
          else (Inr (localStorage w key), w))"

definition localStorage_setItem :: "string \<Rightarrow> string \<Rightarrow> unit js" where
  "localStorage_setItem key val =
     (\<lambda>w. if storage_disabled w
          then (Inl \<lparr>name = ''SecurityError'', message = ''The operation is insecure.''\<rparr>, w)
          else if storage_full w
          then (Inl \<lparr>name = ''QuotaExceededError'', message = ''The quota has been exceeded.''\<rparr>, w)
          else (Inr (), w\<lparr>localStorage := (localStorage w)(key \<mapsto> val)\<rparr>))"

definition localStorage_removeItem :: "string \<Rightarrow> unit js" where
  "localStorage_removeItem key =
     (\<lambda>w. if storage_disabled w
          then (Inl \<lparr>name = ''SecurityError'', message = ''The operation is insecure.''\<rparr>, w)
          else (Inr (), w\<lparr>localStorage := (localStorage w)(key := None)\<rparr>))"

subsection \<open>Storage utilities (\<open>core/storage.js\<close>)\<close>

text \<open>Log lines that cannot throw are left out throughout.\<close>

definition getItem :: "string \<Rightarrow> string option js" where
  "getItem key = try_catch (localStorage_getItem key) (\<lambda>error. js_return None)"

definition setItem :: "string \<Rightarrow> string \<Rightarrow> bool js" where
  "setItem key val =
     try_catch (js_bind (localStorage_setItem key val) (\<lambda>_. js_return True))
       (\<lambda>error. js_return False)"

definition removeItem :: "string \<Rightarrow> bool js" where
  "removeItem key =
     try_catch (js_bind (localStorage_removeItem key) (\<lambda>_. js_return True))
       (\<lambda>error. js_return False)"

section \<open>The gallery cache (\<open>features/gallery/galleryCache.js\<close>)\<close>

definition CACHE_CONFIG_KEY :: string where
  "CACHE_CONFIG_KEY = ''gallery_cache''"

definition CACHE_CONFIG_TTL :: int where
  "CACHE_CONFIG_TTL = 15 * 60 * 1000"

definition CACHE_CONFIG_VERSION :: "string js" where
  "CACHE_CONFIG_VERSION = (\<lambda>w. (Inr (CACHE_VERSION w), w))"

definition REORDER_TIMESTAMP_KEY :: string where
  "REORDER_TIMESTAMP_KEY = ''gallery_last_reorder_timestamp''"

text \<open>
  The guard both cache operations open with:
  \<^verbatim>\<open>if (lastReorderTimestamp) { const reorderAge = now - parseInt(lastReorderTimestamp);
  if (reorderAge < 60000) ...\<close>. A missing or empty stored string is falsy.
\<close>

definition recent_reorder :: "string option \<Rightarrow> int \<Rightarrow> bool" where
  "recent_reorder lastReorderTimestamp now =
     (case lastReorderTimestamp of
        None \<Rightarrow> False
      | Some s \<Rightarrow> s \<noteq> [] \<and> js_lt (js_sub (Some now) (parseInt s)) (Some 60000))"

text \<open>
  \<open>invalidateGalleryCache\<close>: the reorder timestamp first, then the version bump
  (\<open>String.replace\<close> with a string pattern removes the first occurrence), then the
  removal of the entry.
\<close>

definition invalidateGalleryCache :: "int \<Rightarrow> unit js" where
  "invalidateGalleryCache now =
     js_bind (setItem REORDER_TIMESTAMP_KEY (Number_toString (Some now))) (\<lambda>_.
     js_bind (\<lambda>w. (Inr (),
         w\<lparr>CACHE_VERSION :=
             ''v'' @ Number_toString
               (js_add (parseInt (remove1 (CHR ''v'') (CACHE_VERSION w))) (Some 1))\<rparr>)) (\<lambda>_.
     js_bind (removeItem CACHE_CONFIG_KEY) (\<lambda>_.
     js_return ())))"

text \<open>What \<open>getCachedData\<close> returns on a hit: \<open>{data, timestamp, age}\<close>.\<close>

record with_data =
  data :: js_value

record cached_data = with_data +
  timestamp :: js_value
  age :: js_number

text \<open>
  \<open>getCachedData\<close>; \<open>now1\<close> is the clock reading of the reorder guard, \<open>now2\<close> the
  one of the TTL check. The log lines of the stale branch format dates and can throw
  on an invalid one; the handler they would reach does what the branch does.
\<close>

definition getCachedData :: "int \<Rightarrow> int \<Rightarrow> cached_data option js" where
  "getCachedData now1 now2 =
     try_catch
       (js_bind (getItem REORDER_TIMESTAMP_KEY) (\<lambda>lastReorderTimestamp.
          if recent_reorder lastReorderTimestamp now1 then js_return None
          else
          js_bind (getItem CACHE_CONFIG_KEY) (\<lambda>cached.
          case cached of
            None \<Rightarrow> js_return None
          | Some text \<Rightarrow>
              if text = [] then js_return None
              else
              js_bind (js_lift (JSON_parse text)) (\<lambda>parsed.
              js_bind (js_lift (get_prop (Some parsed) ''version'')) (\<lambda>version.
              js_bind CACHE_CONFIG_VERSION (\<lambda>current.
              if version \<noteq> Some (JStr current)
              then js_bind (removeItem CACHE_CONFIG_KEY) (\<lambda>_. js_return None)
              else
              js_bind (js_lift (get_prop (Some parsed) ''timestamp'')) (\<lambda>stamp.
              js_bind
                (case lastReorderTimestamp of
                   None \<Rightarrow> js_return False
                 | Some s \<Rightarrow>
                     if s = [] then js_return False
                     else js_bind (js_lift (ToNumber stamp)) (\<lambda>t.
                          js_return (js_lt t (as_number (parseInt s))))) (\<lambda>stale.
              if stale
              then js_bind (removeItem CACHE_CONFIG_KEY) (\<lambda>_. js_return None)
              else
              js_bind (js_lift (ToNumber stamp)) (\<lambda>t.
              let age = js_sub (as_number (Some now2)) t in
              if js_gt age (as_number (Some CACHE_CONFIG_TTL))
              then js_bind (removeItem CACHE_CONFIG_KEY) (\<lambda>_. js_return None)
              else
              js_bind (js_lift (get_prop (Some parsed) ''data'')) (\<lambda>d.
              js_return (Some \<lparr>data = d, timestamp = stamp, age = age\<rparr>)))))))))))
       (\<lambda>error. js_bind (removeItem CACHE_CONFIG_KEY) (\<lambda>_. js_return None))"

text \<open>
  \<open>setCachedData\<close>; \<open>now1\<close> is the clock reading of the reorder guard, \<open>now2\<close> the
  one stored as the entry's timestamp. The log lines of the blocked branch format a
  date and can throw on an invalid one; the handler they would reach returns without
  writing, as the branch does.
\<close>

definition setCachedData :: "json \<Rightarrow> int \<Rightarrow> int \<Rightarrow> unit js" where
  "setCachedData payload now1 now2 =
     try_catch
       (js_bind (getItem REORDER_TIMESTAMP_KEY) (\<lambda>lastReorderTimestamp.
          if recent_reorder lastReorderTimestamp now1 then js_return ()
          else
          js_bind CACHE_CONFIG_VERSION (\<lambda>current.
          let cacheObject =
                JObj [(''data'', payload), (''timestamp'', JNum now2), (''version'', JStr current)]
          in js_bind (setItem CACHE_CONFIG_KEY (JSON_stringify cacheObject)) (\<lambda>_.
             js_return ()))))
       (\<lambda>error. js_return ())"

definition clearGalleryCache :: "unit js" where
  "clearGalleryCache = js_bind (removeItem CACHE_CONFIG_KEY) (\<lambda>_. js_return ())"

section \<open>HTTP client (\<open>core/http.js\<close>, \<open>core/config.js\<close>)\<close>

definition CONNECTION_CONFIG_RETRY_ATTEMPTS :: int where
  "CONNECTION_CONFIG_RETRY_ATTEMPTS = 3"

definition CONNECTION_CONFIG_RETRY_DELAY :: int where
  "CONNECTION_CONFIG_RETRY_DELAY = 1000"

text \<open>\<open>response.ok\<close>: the status is in the range 200 to 299.\<close>

definition ok :: "response \<Rightarrow> bool" where
  "ok r \<longleftrightarrow> 200 \<le> status r \<and> status r \<le> 299"

definition is_request :: "net_event \<Rightarrow> bool" where
  "is_request ev = (case ev of Requested _ \<Rightarrow> True | Waited _ \<Rightarrow> False)"

text \<open>
  \<open>fetch(url, {...options, signal})\<close>: the request is logged and settles as the
  network decides. The options do not influence the control flow and are left out.
\<close>

definition fetch :: "url \<Rightarrow> response js" where
  "fetch u =
     (\<lambda>w. let k = length (filter is_request (net_log w));
              w' = w\<lparr>net_log := net_log w @ [Requested u]\<rparr>
          in case network w k u of
               Resolves r \<Rightarrow> (Inr r, w')
             | Rejects e \<Rightarrow> (Inl e, w'))"

text \<open>\<open>await new Promise(resolve => setTimeout(resolve, ms))\<close>\<close>

definition wait :: "int \<Rightarrow> unit js" where
  "wait ms = (\<lambda>w. (Inr (), w\<lparr>net_log := net_log w @ [Waited ms]\<rparr>))"

definition String_includes :: "string \<Rightarrow> string \<Rightarrow> bool" where
  "String_includes s searchString = sublist searchString s"

definition isNetworkError :: "js_error \<Rightarrow> bool" where
  "isNetworkError error \<longleftrightarrow>
     name error = ''AbortError'' \<or>
     name error = ''TypeError'' \<or>
     String_includes (message error) ''Failed to fetch'' \<or>
     String_includes (message error) ''NetworkError'' \<or>
     String_includes (message error) ''Network request failed''"

text \<open>The text of a URL; the percent-encoding of parameter values is not modelled.\<close>

definition URL_toString :: "url \<Rightarrow> string" where
  "URL_toString u =
     href u @ (if searchParams u = [] then []
               else CHR ''?'' #
                 tl (concat (map (\<lambda>(k, v). CHR ''&'' # k @ ''='' @ v) (searchParams u))))"

function fetchWithRetry :: "url \<Rightarrow> int \<Rightarrow> response js" where
  "fetchWithRetry u retries w =
     (case fetch u w of
        (Inr response, w1) \<Rightarrow>
          if \<not> ok response \<and> retries > 0
               \<and> status response \<ge> 400 \<and> status response < 500
          then (Inr response, w1)
          else (Inr response, w1)
      | (Inl error, w1) \<Rightarrow>
          if retries > 0 \<and> isNetworkError error
          then (case wait CONNECTION_CONFIG_RETRY_DELAY w1 of
                  (_, w2) \<Rightarrow> fetchWithRetry u (retries - 1) w2)
          else if isNetworkError error
          then (Inl (error\<lparr>message :=
                   ''Network error: Unable to reach '' @ URL_toString u @ ''. '' @
                   (if message error \<noteq> [] then message error
                    else ''Please check your internet connection and try again.'')\<rparr>), w1)
          else (Inl error, w1))"
  by pat_completeness auto
termination
  by (relation "measure (\<lambda>(u, retries, w). nat retries)") auto

declare fetchWithRetry.simps [simp del]

section \<open>Gallery state (\<open>features/gallery/galleryState.js\<close>)\<close>

definition getAllImages :: "json js" where
  "getAllImages = (\<lambda>w. (Inr (allImages w), w))"


text \<open>
  The spread \<open>[...x]\<close> of a value: the elements of an array, the characters of a
  string; no other JSON value is iterable.
\<close>

definition spread :: "json \<Rightarrow> js_error + json list" where
  "spread v =
     (case v of
        JArr xs \<Rightarrow> Inr xs
      | JStr cs \<Rightarrow> Inr (map (\<lambda>c. JStr [c]) cs)
      | _ \<Rightarrow> Inl (TypeError ''object is not iterable''))"

definition appendImages :: "js_value \<Rightarrow> unit js" where
  "appendImages images =
     (\<lambda>w. case spread (allImages w) of
            Inl e \<Rightarrow> (Inl e, w)
          | Inr old \<Rightarrow>
              (case spread (case images of
                              None \<Rightarrow> JArr []
                            | Some v \<Rightarrow> if truthy images then v else JArr []) of
                 Inl e \<Rightarrow> (Inl e, w)
               | Inr new \<Rightarrow> (Inr (), w\<lparr>allImages := JArr (old @ new)\<rparr>)))"

definition getNextCursor :: "js_value js" where
  "getNextCursor = (\<lambda>w. (Inr (nextCursor w), w))"

definition setNextCursor :: "js_value \<Rightarrow> unit js" where
  "setNextCursor cursor = (\<lambda>w. (Inr (), w\<lparr>nextCursor := cursor\<rparr>))"

definition getHasMore :: "js_value js" where
  "getHasMore = (\<lambda>w. (Inr (hasMore w), w))"

definition setHasMore :: "js_value \<Rightarrow> unit js" where
  "setHasMore flag = (\<lambda>w. (Inr (), w\<lparr>hasMore := flag\<rparr>))"

definition getIsLoading :: "bool js" where
  "getIsLoading = (\<lambda>w. (Inr (isLoading w), w))"

definition setIsLoading :: "bool \<Rightarrow> unit js" where
  "setIsLoading loading = (\<lambda>w. (Inr (), w\<lparr>isLoading := loading\<rparr>))"

definition resetState :: "unit js" where
  "resetState =
     (\<lambda>w. (Inr (), w\<lparr>allImages := JArr [], nextCursor := Some JNull,
                       hasMore := Some (JBool True), isLoading := False\<rparr>))"

section \<open>Gallery API (\<open>features/gallery/galleryApi.js\<close>)\<close>

text \<open>What \<open>fetchGalleryImages\<close> resolves to: \<open>{data, fromCache, cacheAge}\<close>.\<close>

record fetch_result = with_data +
  fromCache :: bool
  cacheAge :: "js_number option"

definition typeof_object :: "js_value \<Rightarrow> bool" where
  "typeof_object v =
     (case v of Some JNull \<Rightarrow> True | Some (JArr _) \<Rightarrow> True | Some (JObj _) \<Rightarrow> True | _ \<Rightarrow> False)"

definition Array_isArray :: "js_value \<Rightarrow> bool" where
  "Array_isArray v = (case v of Some (JArr _) \<Rightarrow> True | _ \<Rightarrow> False)"

definition searchParams_set :: "url \<Rightarrow> string \<Rightarrow> string \<Rightarrow> url" where
  "searchParams_set u k v =
     u\<lparr>searchParams := (if k \<in> fst ` set (searchParams u)
                         then map (\<lambda>(k', v'). if k' = k then (k', v) else (k', v'))
                                (searchParams u)
                         else searchParams u @ [(k, v)])\<rparr>"

text \<open>
  \<open>fetchGalleryImages(cursor, useCache)\<close>; \<open>now1\<close> and \<open>now2\<close> are the clock readings
  of the cache read, when there is one.
\<close>

definition fetchGalleryImages :: "js_value \<Rightarrow> bool \<Rightarrow> int \<Rightarrow> int \<Rightarrow> fetch_result js" where
  "fetchGalleryImages cursor useCache now1 now2 =
     try_catch
       (js_bind (if \<not> truthy cursor \<and> useCache then getCachedData now1 now2
                 else js_return None) (\<lambda>cached.
        case cached of
          Some hit \<Rightarrow>
            js_return \<lparr>data = data hit, fromCache = True, cacheAge = Some (age hit)\<rparr>
        | None \<Rightarrow>
            js_bind (\<lambda>w. (GALLERY_IMAGES w, w)) (\<lambda>u0.
            js_bind
              (case cursor of
                 None \<Rightarrow> js_return (searchParams_set u0 ''limit'' ''12'')
               | Some c \<Rightarrow>
                   if truthy cursor
                   then js_bind (js_lift (js_ToString c)) (\<lambda>text.
                        js_return
                          (searchParams_set (searchParams_set u0 ''limit'' ''12'') ''cursor'' text))
                   else js_return (searchParams_set u0 ''limit'' ''12'')) (\<lambda>u.
            js_bind (fetchWithRetry u CONNECTION_CONFIG_RETRY_ATTEMPTS) (\<lambda>response.
            if \<not> ok response
            then js_throw (Error (''HTTP error! status: '' @ int_toString (status response)))
            else
            js_bind (js_lift (JSON_parse (body response))) (\<lambda>parsed.
            if \<not> truthy (Some parsed) \<or> \<not> typeof_object (Some parsed)
            then js_throw (Error ''Invalid API response format'')
            else
            js_bind (js_lift (get_prop (Some parsed) ''images'')) (\<lambda>images.
            if \<not> truthy images \<or> \<not> Array_isArray images
            then js_throw (Error ''API response missing images array'')
            else
            js_bind (js_lift (get_prop (Some parsed) ''pagination'')) (\<lambda>pagination.
            if \<not> truthy pagination \<or> \<not> typeof_object pagination
            then js_throw (Error ''API response missing pagination metadata'')
            else
            js_bind (js_lift (get_prop pagination ''has_more'')) (\<lambda>more_flag.
            js_bind (js_lift (template_text more_flag)) (\<lambda>_.
            js_return \<lparr>data = Some parsed, fromCache = False, cacheAge = None\<rparr>))))))))))
       (\<lambda>error. js_throw error)"

section \<open>Gallery renderer (\<open>features/gallery/galleryRenderer.js\<close>)\<close>


definition querySelector_load_more_btn :: "button option js" where
  "querySelector_load_more_btn =
     (\<lambda>w. (Inr (case gallery_grid w of None \<Rightarrow> None | Some g \<Rightarrow> load_more_btn g), w))"


definition set_button :: "button \<Rightarrow> unit js" where
  "set_button b =
     (\<lambda>w. (Inr (), w\<lparr>gallery_grid :=
                 map_option (\<lambda>g. g\<lparr>load_more_btn := map_option (\<lambda>_. b) (load_more_btn g)\<rparr>)
                   (gallery_grid w)\<rparr>))"

text \<open>\<open>images.forEach\<close>: items are appended until the creation of one throws.\<close>

fun forEach_createGalleryItem ::
  "(json \<Rightarrow> js_error option) \<Rightarrow> json list \<Rightarrow> js_error option \<times> json list" where
  "forEach_createGalleryItem f [] = (None, [])"
| "forEach_createGalleryItem f (x # xs) =
     (case f x of
        Some e \<Rightarrow> (Some e, [])
      | None \<Rightarrow> (case forEach_createGalleryItem f xs of (r, ys) \<Rightarrow> (r, x # ys)))"

definition renderImages :: "json \<Rightarrow> unit js" where
  "renderImages images =
     (\<lambda>w. case gallery_grid w of
            None \<Rightarrow> (Inr (), w)
          | Some g \<Rightarrow>
              (case images of
                 JArr xs \<Rightarrow>
                   (case forEach_createGalleryItem (createGalleryItem w) xs of
                      (r, shown) \<Rightarrow>
                        ((case r of None \<Rightarrow> Inr () | Some e \<Rightarrow> Inl e),
                         w\<lparr>gallery_grid :=
                             Some \<lparr>innerHTML = Items (JArr shown), load_more_btn = None\<rparr>\<rparr>))
               | _ \<Rightarrow>
                   (Inl (TypeError ''images.forEach is not a function''),
                    w\<lparr>gallery_grid :=
                        Some \<lparr>innerHTML = Items (JArr []), load_more_btn = None\<rparr>\<rparr>)))"

definition addLoadMoreButton :: "unit js" where
  "addLoadMoreButton =
     (\<lambda>w. (Inr (), w\<lparr>gallery_grid :=
                 map_option
                   (\<lambda>g. g\<lparr>load_more_btn := Some \<lparr>textContent = ''Load More'', disabled = False\<rparr>\<rparr>)
                   (gallery_grid w)\<rparr>))"

section \<open>Gallery app (\<open>features/gallery/galleryApp.js\<close>)\<close>

text \<open>
  An object literal as \<open>JSON.stringify\<close> writes it: a property whose value is
  \<open>undefined\<close> is dropped.
\<close>

definition js_object :: "(string \<times> js_value) list \<Rightarrow> json" where
  "js_object props =
     JObj (concat (map (\<lambda>(k, v). case v of None \<Rightarrow> [] | Some x \<Rightarrow> [(k, x)]) props))"

text \<open>The \<open>length\<close> property of a value that is not \<open>null\<close>.\<close>

definition js_length :: "json \<Rightarrow> js_value" where
  "js_length v =
     (case v of
        JArr xs \<Rightarrow> Some (JNum (int (length xs)))
      | JStr cs \<Rightarrow> Some (JNum (int (length cs)))
      | JObj kvs \<Rightarrow> map_of (rev kvs) ''length''
      | _ \<Rightarrow> None)"

text \<open>
  The decision of \<open>renderGallery\<close> to write the cache:
  \<^verbatim>\<open>const shouldRecache = !fromCache || (cacheAge !== null && cacheAge > 16 * 60 * 1000)\<close>.
\<close>

definition shouldRecache :: "fetch_result \<Rightarrow> bool" where
  "shouldRecache result \<longleftrightarrow>
     \<not> fromCache result \<or>
     (case cacheAge result of
        None \<Rightarrow> False
      | Some a \<Rightarrow> js_gt a (Some (16 * 60 * 1000)))"


text \<open>
  \<open>loadMoreImages\<close> suspends once, at \<open>await fetchGalleryImages(getNextCursor(), false)\<close>.
  \<open>loadMoreImages_begin\<close> is the code up to that call and returns the cursor the
  fetch is started with, or nothing when the function returns early;
  \<open>loadMoreImages_resume\<close> is the code that runs once the fetch has settled, with what
  it settled to: the rest of the \<open>try\<close> block, the \<open>catch\<close> handler and the
  \<open>finally\<close> block. The handler writes to the button found at the start, which is
  the button in the grid unless the grid was rebuilt in between.
\<close>

definition try_finally :: "'a js \<Rightarrow> unit js \<Rightarrow> 'a js" where
  "try_finally block finalizer =
     (\<lambda>w. case block w of
            (r, w') \<Rightarrow>
              (case finalizer w' of
                 (Inl e, w'') \<Rightarrow> (Inl e, w'')
               | (Inr _, w'') \<Rightarrow> (r, w'')))"

definition loadMoreImages_begin :: "js_value option js" where
  "loadMoreImages_begin =
     js_bind getIsLoading (\<lambda>loading.
     js_bind getHasMore (\<lambda>hm.
     if loading \<or> \<not> truthy hm then js_return None
     else
     js_bind querySelector_load_more_btn (\<lambda>btn.
     if btn = None then js_return None
     else
     js_bind (setIsLoading True) (\<lambda>_.
     js_bind (set_button \<lparr>textContent = ''Loading...'', disabled = True\<rparr>) (\<lambda>_.
     js_bind getNextCursor (\<lambda>cursor.
     js_return (Some cursor)))))))"

definition loadMoreImages_resume :: "js_error + fetch_result \<Rightarrow> int \<Rightarrow> int \<Rightarrow> unit js" where
  "loadMoreImages_resume settled now1 now2 =
     try_finally
       (try_catch
          (js_bind (js_lift settled) (\<lambda>result.
           js_bind (if \<not> truthy (data result) then js_return None
                    else js_lift (get_prop (data result) ''images'')) (\<lambda>images.
           if \<not> truthy images then js_throw (Error ''Failed to load more images'')
           else
           js_bind (appendImages images) (\<lambda>_.
           js_bind (js_lift (get_prop (data result) ''pagination'')) (\<lambda>pagination.
           js_bind (js_lift (get_prop pagination ''next_cursor'')) (\<lambda>c.
           js_bind (setNextCursor c) (\<lambda>_.
           js_bind (js_lift (get_prop pagination ''has_more'')) (\<lambda>h.
           js_bind (setHasMore h) (\<lambda>_.
           js_bind getAllImages (\<lambda>imgs.
           js_bind getNextCursor (\<lambda>nc.
           js_bind getHasMore (\<lambda>hm.
           js_bind (js_lift (get_prop pagination ''total_count'')) (\<lambda>total.
           js_bind
             (setCachedData
                (js_object
                   [(''images'', Some imgs),
                    (''pagination'',
                     Some (js_object [(''next_cursor'', nc), (''has_more'', hm),
                                      (''total_count'', total)]))])
                now1 now2) (\<lambda>_.
           js_bind getAllImages (\<lambda>imgs2.
           js_bind (renderImages imgs2) (\<lambda>_.
           js_bind getHasMore (\<lambda>hm2.
           js_bind (if truthy hm2 then addLoadMoreButton else js_return ()) (\<lambda>_.
           js_bind (js_lift (case images of
                               None \<Rightarrow> Inr []
                             | Some v \<Rightarrow> template_text (js_length v))) (\<lambda>_.
           js_bind getAllImages (\<lambda>imgs3.
           js_bind (js_lift (template_text (js_length imgs3))) (\<lambda>_.
           js_return ())))))))))))))))))))))
          (\<lambda>error. set_button \<lparr>textContent = ''Load More'', disabled = False\<rparr>))
       (setIsLoading False)"

text \<open>A call of \<open>loadMoreImages\<close> that runs to its end with nothing in between.\<close>

definition loadMoreImages :: "int \<Rightarrow> int \<Rightarrow> unit js" where
  "loadMoreImages now1 now2 =
     js_bind loadMoreImages_begin (\<lambda>started.
     case started of
       None \<Rightarrow> js_return ()
     | Some cursor \<Rightarrow>
         (\<lambda>w. case fetchGalleryImages cursor False now1 now2 w of
                (settled, w') \<Rightarrow> loadMoreImages_resume settled now1 now2 w'))"

text \<open>
  The page between events: the state and the number of load-more fetches started and
  not yet settled. An event is a call of \<open>loadMoreImages\<close> (a click on the button) or
  the settling of a pending fetch, after which the suspended call resumes.
\<close>

datatype event =
    Call_loadMoreImages
  | Settled "js_error + fetch_result" int int

fun step :: "world \<times> nat \<Rightarrow> event \<Rightarrow> world \<times> nat" where
  "step (w, pending) Call_loadMoreImages =
     (case loadMoreImages_begin w of
        (Inr (Some cursor), w') \<Rightarrow> (w', Suc pending)
      | (_, w') \<Rightarrow> (w', pending))"
| "step (w, pending) (Settled settled now1 now2) =
     (if pending = 0 then (w, pending)
      else (snd (loadMoreImages_resume settled now1 now2 w), pending - 1))"

definition run :: "world \<times> nat \<Rightarrow> event list \<Rightarrow> world \<times> nat" where
  "run = foldl step"

section \<open>Auxiliary notions\<close>

text \<open>
  Used in the proofs about JSON text only: the characters that can follow a value
  inside JSON text, and those a value's text can start with.
\<close>

definition ok_follow :: "string \<Rightarrow> bool" where
  "ok_follow rest \<longleftrightarrow> rest = [] \<or> hd rest \<in> {CHR '','', CHR '']'', CHR ''}''}"

definition value_start :: "char \<Rightarrow> bool" where
  "value_start c \<longleftrightarrow> is_digit c \<or> c \<in> {CHR ''-'', CHR 0x22, CHR ''['', CHR ''{'', CHR ''n'', CHR ''t'', CHR ''f''}"

text \<open>The state with the cache entry deleted.\<close>

definition removed :: "world \<Rightarrow> world" where
  "removed w = w\<lparr>localStorage := (localStorage w)(CACHE_CONFIG_KEY := None)\<rparr>"

text \<open>
  The number of requests sent so far, and the log of a request retried \<open>k\<close> times.
\<close>

definition requests_sent :: "world \<Rightarrow> nat" where
  "requests_sent w = length (filter is_request (net_log w))"

definition retry_log :: "url \<Rightarrow> nat \<Rightarrow> net_event list" where
  "retry_log u k =
     Requested u # concat (replicate k [Waited CONNECTION_CONFIG_RETRY_DELAY, Requested u])"

section \<open>Example states\<close>

text \<open>
  A freshly loaded gallery page: working, empty storage, the module variables at
  their initial values, the development endpoint, an empty grid, and a network on
  which every request fails.
\<close>

definition offline :: "nat \<Rightarrow> url \<Rightarrow> fetch_outcome" where
  "offline k u = Rejects \<lparr>name = ''TypeError'', message = ''Failed to fetch''\<rparr>"

definition page_load :: world where
  "page_load =
     \<lparr>localStorage = Map.empty,
      storage_disabled = False,
      storage_full = False,
      CACHE_VERSION = ''v2'',
      allImages = JArr [],
      nextCursor = Some JNull,
      hasMore = Some (JBool True),
      isLoading = False,
      network = offline,
      net_log = [],
      GALLERY_IMAGES = Inr \<lparr>href = ''http://localhost:8000/api/gallery-images'', searchParams = []\<rparr>,
      gallery_grid = Some \<lparr>innerHTML = Loading, load_more_btn = None\<rparr>,
      createGalleryItem =
        (\<lambda>image. if image = JNull
                 then Some (TypeError ''Cannot read properties of null'') else None)\<rparr>"

text \<open>
  Thirty seconds after a reorder at time 1000000: the reorder timestamp is stored, and
  so is an entry of the current version written after the reorder.
\<close>

definition after_reorder :: world where
  "after_reorder =
     page_load\<lparr>localStorage :=
       [REORDER_TIMESTAMP_KEY \<mapsto> ''1000000'',
        CACHE_CONFIG_KEY \<mapsto> ''{\"data\":[],\"timestamp\":1000500,\"version\":\"v2\"}'']\<rparr>"



definition expired_entry :: world where
  "expired_entry =
     page_load\<lparr>localStorage :=
       [CACHE_CONFIG_KEY \<mapsto> ''{\"data\":[],\"timestamp\":1000000,\"version\":\"v2\"}'']\<rparr>"

text \<open>An entry of the current version whose data holds a number with a fraction.\<close>

definition fraction_entry :: world where
  "fraction_entry =
     page_load\<lparr>localStorage :=
       [CACHE_CONFIG_KEY \<mapsto> ''{\"data\":{\"ratio\":1.5},\"timestamp\":1000000,\"version\":\"v2\"}'']\<rparr>"

text \<open>
  The entry stamped 1000000 in a storage whose quota is used up, and a page whose
  storage stops taking writes after a reorder at time 1000000.
\<close>

definition quota_exceeded :: world where
  "quota_exceeded = expired_entry\<lparr>storage_full := True\<rparr>"

definition filled_after_reorder :: world where
  "filled_after_reorder =
     (snd (invalidateGalleryCache 1000000 page_load))\<lparr>storage_full := True\<rparr>"

text \<open>
  An entry that is no JSON text, thirty seconds after a reorder at time 1000000 and
  with no reorder on record.
\<close>

definition garbled_in_window :: world where
  "garbled_in_window =
     page_load\<lparr>localStorage :=
       [REORDER_TIMESTAMP_KEY \<mapsto> ''1000000'', CACHE_CONFIG_KEY \<mapsto> ''{not json'']\<rparr>"

definition garbled_entry :: world where
  "garbled_entry = page_load\<lparr>localStorage := [CACHE_CONFIG_KEY \<mapsto> ''{not json'']\<rparr>"

text \<open>
  A network on which the first two requests fail and the third is answered with
  status 503; the URL of the first gallery page.
\<close>

definition flaky :: world where
  "flaky =
     page_load\<lparr>network :=
       (\<lambda>k u. if k < 2 then Rejects \<lparr>name = ''TypeError'', message = ''Failed to fetch''\<rparr>
              else Resolves \<lparr>status = 503, body = ''Service Unavailable''\<rparr>)\<rparr>"

definition gallery_url :: url where
  "gallery_url =
     \<lparr>href = ''http://localhost:8000/api/gallery-images'', searchParams = [(''limit'', ''12'')]\<rparr>"

text \<open>
  A gallery page showing one image and its load-more button, at rest and while a
  load-more fetch is pending.
\<close>

definition gallery_page :: world where
  "gallery_page =
     page_load\<lparr>allImages := JArr [JObj [(''id'', JNum 1)]],
                nextCursor := Some (JStr ''abc''),
                gallery_grid :=
                  Some \<lparr>innerHTML = Items (JArr [JObj [(''id'', JNum 1)]]),
                        load_more_btn = Some \<lparr>textContent = ''Load More'', disabled = False\<rparr>\<rparr>\<rparr>"

definition gallery_page_loading :: world where
  "gallery_page_loading =
     gallery_page\<lparr>isLoading := True,
                   gallery_grid :=
                     Some \<lparr>innerHTML = Items (JArr [JObj [(''id'', JNum 1)]]),
                           load_more_btn = Some \<lparr>textContent = ''Loading...'', disabled = True\<rparr>\<rparr>\<rparr>"


section \<open>Decimal text of integers\<close>

lemma of_char_digit_char: "0 \<le> d \<Longrightarrow> d < 10 \<Longrightarrow> of_char (digit_char d) = 48 + d"
  by (simp add: digit_char_def)

lemma is_digit_digit_char: "0 \<le> d \<Longrightarrow> d < 10 \<Longrightarrow> is_digit (digit_char d)"
  by (simp add: is_digit_def of_char_digit_char)

lemma digit_val_digit_char: "0 \<le> d \<Longrightarrow> d < 10 \<Longrightarrow> digit_val (digit_char d) = d"
  by (simp add: digit_val_def is_digit_digit_char of_char_digit_char)

lemma nat_toString_digits: "0 \<le> n \<Longrightarrow> list_all is_digit (nat_toString n)"
proof (induction n rule: nat_toString.induct)
  case (1 n)
  show ?case
  proof (cases "n < 10")
    case True
    with 1(2) show ?thesis
      by (subst nat_toString.simps) (simp add: is_digit_digit_char)
  next
    case False
    with 1 have "list_all is_digit (nat_toString (n div 10))" by simp
    moreover have "is_digit (digit_char (n mod 10))"
      by (rule is_digit_digit_char) simp_all
    ultimately show ?thesis using False
      by (subst nat_toString.simps) simp
  qed
qed

lemma nat_toString_nonempty: "nat_toString n \<noteq> []"
  by (subst nat_toString.simps) simp

lemma radix_val_snoc: "radix_val R (Z @ [c]) = R * radix_val R Z + digit_val c"
  by (simp add: radix_val_def)

lemma radix_val_nat_toString: "0 \<le> n \<Longrightarrow> radix_val 10 (nat_toString n) = n"
proof (induction n rule: nat_toString.induct)
  case (1 n)
  show ?case
  proof (cases "n < 10")
    case True
    with 1(2) show ?thesis
      by (subst nat_toString.simps) (simp add: radix_val_def digit_val_digit_char)
  next
    case False
    with 1 have "radix_val 10 (nat_toString (n div 10)) = n div 10" by simp
    moreover have "digit_val (digit_char (n mod 10)) = n mod 10"
      by (rule digit_val_digit_char) simp_all
    ultimately show ?thesis using False
      by (subst nat_toString.simps) (simp add: radix_val_snoc)
  qed
qed

lemma digit_not_space: "is_digit c \<Longrightarrow> \<not> is_space c"
  by (auto simp: is_digit_def is_space_def)

lemma digit_not_sign: "is_digit c \<Longrightarrow> c \<noteq> CHR ''-'' \<and> c \<noteq> CHR ''+'' \<and> c \<noteq> CHR ''x'' \<and> c \<noteq> CHR ''X''"
  by (auto simp: is_digit_def)

lemma takeWhile_all: "list_all P xs \<Longrightarrow> takeWhile P xs = xs"
  by (induction xs) auto

lemma take2_digits: "list_all is_digit ds \<Longrightarrow> take 2 ds \<noteq> ''0x'' \<and> take 2 ds \<noteq> ''0X''"
proof (cases ds)
  case Nil then show ?thesis by simp
next
  case (Cons a as)
  assume h: "list_all is_digit ds"
  show ?thesis
  proof (cases as)
    case Nil with Cons show ?thesis by simp
  next
    case (Cons b bs)
    with h \<open>ds = a # as\<close> have "is_digit b" by simp
    then have "b \<noteq> CHR ''x'' \<and> b \<noteq> CHR ''X''" by (simp add: digit_not_sign)
    with Cons \<open>ds = a # as\<close> show ?thesis by simp
  qed
qed

lemma parseInt_digits:
  assumes "list_all is_digit ds" "ds \<noteq> []"
  shows "parseInt ds = Some (radix_val 10 ds)"
    and "parseInt (CHR ''-'' # ds) = Some (- radix_val 10 ds)"
proof -
  from assms obtain a as where ds: "ds = a # as" by (cases ds) auto
  with assms have a: "is_digit a" by simp
  have sp: "dropWhile is_space ds = ds" using ds a by (simp add: digit_not_space)
  have sg: "hd ds \<noteq> CHR ''-''" "hd ds \<noteq> CHR ''+''" using ds a by (simp_all add: digit_not_sign)
  note t2 = take2_digits[OF assms(1)]
  show "parseInt ds = Some (radix_val 10 ds)"
    using assms sp sg t2 by (simp add: parseInt_def Let_def takeWhile_all)
  have "\<not> is_space (CHR ''-'')" by (simp add: is_space_def)
  then show "parseInt (CHR ''-'' # ds) = Some (- radix_val 10 ds)"
    using assms t2 by (simp add: parseInt_def Let_def takeWhile_all)
qed

lemma parseInt_int_toString: "parseInt (int_toString i) = Some i"
proof (cases "i < 0")
  case True
  then have "0 \<le> - i" by simp
  from nat_toString_digits[OF this] nat_toString_nonempty radix_val_nat_toString[OF this] True
  show ?thesis by (simp add: int_toString_def parseInt_digits(2))
next
  case False
  then have "0 \<le> i" by simp
  from nat_toString_digits[OF this] nat_toString_nonempty radix_val_nat_toString[OF this] False
  show ?thesis by (simp add: int_toString_def parseInt_digits(1))
qed

section \<open>\<open>JSON.parse\<close> inverts \<open>JSON.stringify\<close>\<close>

lemma hex_char_props:
  assumes "0 \<le> d" "d < 16"
  shows "is_hex_digit (hex_char d)" "digit_val (hex_char d) = d"
  using assms by (auto simp: hex_char_def is_hex_digit_def is_digit_def digit_val_def)

lemma char_eq_of_char: "(c :: char) = d \<longleftrightarrow> (of_char c :: int) = of_char d"
  by (metis char_of_char)

lemma of_char_bounds: "0 \<le> (of_char c :: int)" "(of_char c :: int) < 256"
  by (simp_all add: of_char_def)  

lemma parse_chars_quote_char:
  "parse_chars (quote_char c @ cs) = map_option (\<lambda>(s, t). (c # s, t)) (parse_chars cs)"
proof -
  consider (special) "c \<in> {CHR 0x22, CHR 0x5C, CHR 0x08, CHR 0x0C, CHR 0x0A, CHR 0x0D, CHR 0x09}"
    | (control) "c \<notin> {CHR 0x22, CHR 0x5C, CHR 0x08, CHR 0x0C, CHR 0x0A, CHR 0x0D, CHR 0x09}" "of_char c < (32::int)"
    | (plain) "c \<notin> {CHR 0x22, CHR 0x5C, CHR 0x08, CHR 0x0C, CHR 0x0A, CHR 0x0D, CHR 0x09}" "\<not> of_char c < (32::int)"
    by blast
  then show ?thesis
  proof cases
    case special
    then show ?thesis
      by (auto simp: quote_char_def unescape_def)
  next
    case control
    let ?n = "of_char c :: int"
    have n: "0 \<le> ?n" "?n < 32" using control by (simp_all add: of_char_bounds)
    have d1: "0 \<le> ?n div 16" "?n div 16 < 16" using n by auto
    have d2: "0 \<le> ?n mod 16" "?n mod 16 < 16" by auto
    let ?h = "[CHR ''0'', CHR ''0'', hex_char (?n div 16), hex_char (?n mod 16)]"
    have hex: "list_all is_hex_digit ?h"
      using hex_char_props(1)[OF d1] hex_char_props(1)[OF d2]
      by (simp add: is_hex_digit_def is_digit_def)
    have val: "radix_val 16 ?h = ?n"
      using hex_char_props(2)[OF d1] hex_char_props(2)[OF d2]
      by (simp add: radix_val_def digit_val_def is_digit_def)
    have bytes: "code_unit_bytes ?n = [c]"
      using n by (simp add: code_unit_bytes_def)
    have q: "quote_char c = [CHR 0x5C, CHR ''u''] @ ?h"
      using control by (simp add: quote_char_def)
    show ?thesis
      unfolding q using hex val bytes by simp
  next
    case plain
    then show ?thesis
      by (simp add: quote_char_def)
  qed
qed

lemma parse_chars_quoted:
  "parse_chars (concat (map quote_char s) @ CHR 0x22 # rest) = Some (s, rest)"
  by (induction s) (simp_all add: parse_chars_quote_char)

lemma nat_toString_hd: "0 < n \<Longrightarrow> hd (nat_toString n) \<noteq> CHR ''0''"
proof (induction n rule: nat_toString.induct)
  case (1 n)
  show ?case
  proof (cases "n < 10")
    case True
    with 1(2) have "of_char (digit_char n) = 48 + n" by (simp add: of_char_digit_char)
    with 1(2) have "digit_char n \<noteq> CHR ''0''" by auto
    with True show ?thesis by (subst nat_toString.simps) simp
  next
    case False
    with 1 have "hd (nat_toString (n div 10)) \<noteq> CHR ''0''" by simp
    with False show ?thesis
      by (subst nat_toString.simps) (simp add: nat_toString_nonempty)
  qed
qed

lemma nat_toString_no_leading_zero:
  assumes "0 \<le> n"
  shows "\<not> (1 < length (nat_toString n) \<and> hd (nat_toString n) = CHR ''0'')"
proof (cases "n = 0")
  case True
  then show ?thesis by (subst nat_toString.simps) simp
next
  case False
  with assms have "0 < n" by simp
  from nat_toString_hd[OF this] show ?thesis by simp
qed

lemma takeWhile_digits_append:
  assumes "list_all is_digit ds" "rest = [] \<or> \<not> is_digit (hd rest)"
  shows "takeWhile is_digit (ds @ rest) = ds" "dropWhile is_digit (ds @ rest) = rest"
proof -
  from assms(2) have "takeWhile is_digit rest = [] \<and> dropWhile is_digit rest = rest"
    by (cases rest) auto
  with assms(1) show "takeWhile is_digit (ds @ rest) = ds" "dropWhile is_digit (ds @ rest) = rest"
    by (induction ds) auto
qed

lemma ok_follow_not_digit:
  assumes "ok_follow rest"
  shows "rest = [] \<or> \<not> is_digit (hd rest)"
    and "(rest \<noteq> [] \<and> hd rest = CHR ''.'') = False"
  using assms by (auto simp: ok_follow_def is_digit_def)

lemma scan_exponent_ok_follow: "ok_follow rest \<Longrightarrow> scan_exponent rest = (0, rest)"
  by (auto simp: scan_exponent_def ok_follow_def Let_def)

lemma parse_number_digits:
  assumes "list_all is_digit ds" "ds \<noteq> []" "\<not> (1 < length ds \<and> hd ds = CHR ''0'')" "ok_follow rest"
  shows "parse_number (ds @ rest) = Some (JNum (radix_val 10 ds), rest)"
    and "parse_number (CHR ''-'' # ds @ rest) = Some (JNum (- radix_val 10 ds), rest)"
proof -
  note nd = ok_follow_not_digit[OF assms(4)]
  note tw = takeWhile_digits_append[OF assms(1) nd(1)]
  note ex = scan_exponent_ok_follow[OF assms(4)]
  from assms(1,2) have neg: "(ds @ rest \<noteq> [] \<and> hd (ds @ rest) = CHR ''-'') = False"
    by (cases ds) (auto simp: digit_not_sign)
  have bad: "(ds = [] \<or> (1 < length ds \<and> hd ds = CHR ''0'') \<or> False \<and> [] = []) = False"
    using assms(2,3) by simp
  show "parse_number (ds @ rest) = Some (JNum (radix_val 10 ds), rest)"
    by (simp only: parse_number_def Let_def neg if_False tw nd(2) ex fst_conv snd_conv bad)
       (simp add: scaled_value_def)
  have neg': "(CHR ''-'' # ds @ rest \<noteq> [] \<and> hd (CHR ''-'' # ds @ rest) = CHR ''-'') = True"
    by simp
  have tw': "takeWhile is_digit (tl (CHR ''-'' # ds @ rest)) = ds"
    "dropWhile is_digit (tl (CHR ''-'' # ds @ rest)) = rest"
    using tw by simp_all
  show "parse_number (CHR ''-'' # ds @ rest) = Some (JNum (- radix_val 10 ds), rest)"
    by (simp only: parse_number_def Let_def neg' if_True if_False tw' nd(2) ex fst_conv snd_conv bad)
       (simp add: scaled_value_def)
qed

lemma parse_number_fraction:
  assumes "list_all is_digit ip" "ip \<noteq> []" "\<not> (1 < length ip \<and> hd ip = CHR ''0'')"
    and "list_all is_digit fp" "fp \<noteq> []" "ok_follow rest"
  shows "parse_number (ip @ CHR ''.'' # fp @ rest)
           = Some (scaled_value (radix_val 10 (ip @ fp)) (- int (length fp)), rest)"
    and "parse_number (CHR ''-'' # ip @ CHR ''.'' # fp @ rest)
           = Some (scaled_value (- radix_val 10 (ip @ fp)) (- int (length fp)), rest)"
proof -
  have pt: "\<not> is_digit (CHR ''.'')"
    by (simp add: is_digit_def)
  have tw1: "takeWhile is_digit (ip @ CHR ''.'' # fp @ rest) = ip"
    "dropWhile is_digit (ip @ CHR ''.'' # fp @ rest) = CHR ''.'' # fp @ rest"
    using takeWhile_digits_append[OF assms(1), of "CHR ''.'' # fp @ rest"] pt by simp_all
  note nd = ok_follow_not_digit[OF assms(6)]
  have tw2: "takeWhile is_digit (fp @ rest) = fp" "dropWhile is_digit (fp @ rest) = rest"
    using takeWhile_digits_append[OF assms(4) nd(1)] by simp_all
  note ex = scan_exponent_ok_follow[OF assms(6)]
  from assms(1,2) have neg: "hd (ip @ CHR ''.'' # fp @ rest) \<noteq> CHR ''-''"
    by (cases ip) (auto simp: digit_not_sign)
  show "parse_number (ip @ CHR ''.'' # fp @ rest)
           = Some (scaled_value (radix_val 10 (ip @ fp)) (- int (length fp)), rest)"
    using assms(2,3,5) neg by (simp add: parse_number_def Let_def tw1 tw2 ex)
  show "parse_number (CHR ''-'' # ip @ CHR ''.'' # fp @ rest)
           = Some (scaled_value (- radix_val 10 (ip @ fp)) (- int (length fp)), rest)"
    using assms(2,3,5) by (simp add: parse_number_def Let_def tw1 tw2 ex)
qed

lemma radix_val_zeros: "radix_val R (replicate z (CHR ''0'') @ ds) = radix_val R ds"
  by (induction z) (simp_all add: radix_val_def digit_val_def is_digit_def)

lemma mantissa_props:
  "mantissa q d mod 10 = digit1_val d" "mantissa q d div 10 = q"
  "digit1_val d \<noteq> 0" "digit1_of (digit1_val d) = d"
  by (cases d; simp add: mantissa_def digit1_of_def)+

lemma decimal_mantissa: "decimal (mantissa q d) (Suc k) = JDec q d k"
  by (simp add: mantissa_props)

lemma decimal_text_shape:
  "\<exists>ip fp. decimal_text m k = (if m < 0 then ''-'' else []) @ ip @ CHR ''.'' # fp
     \<and> list_all is_digit ip \<and> ip \<noteq> [] \<and> \<not> (1 < length ip \<and> hd ip = CHR ''0'')
     \<and> list_all is_digit fp \<and> length fp = Suc k \<and> radix_val 10 (ip @ fp) = \<bar>m\<bar>"
proof -
  define ds where "ds = nat_toString \<bar>m\<bar>"
  define padded where "padded = replicate (Suc (Suc k) - length ds) (CHR ''0'') @ ds"
  define n where "n = length padded - Suc k"
  define ip where "ip = take n padded"
  define fp where "fp = drop n padded"
  have dig: "list_all is_digit ds" and val: "radix_val 10 ds = \<bar>m\<bar>" and ne: "ds \<noteq> []"
    by (simp_all add: ds_def nat_toString_digits radix_val_nat_toString nat_toString_nonempty)
  have lz: "\<not> (1 < length ds \<and> hd ds = CHR ''0'')"
    unfolding ds_def by (rule nat_toString_no_leading_zero) simp
  have zero: "is_digit (CHR ''0'')"
    by (simp add: is_digit_def)
  have pdig: "list_all is_digit padded"
    using dig zero by (auto simp: padded_def list_all_iff)
  have plen: "Suc (Suc k) \<le> length padded"
    by (simp add: padded_def)
  have split: "ip @ fp = padded"
    by (simp add: ip_def fp_def)
  from pdig have ipd: "list_all is_digit ip" and fpd: "list_all is_digit fp"
    unfolding split [symmetric] by simp_all
  from plen have n: "1 \<le> n" "n < length padded" "length padded - n = Suc k"
    by (simp_all add: n_def)
  from n have ipne: "ip \<noteq> []" and fplen: "length fp = Suc k"
    by (auto simp: ip_def fp_def)
  have pv: "radix_val 10 (ip @ fp) = \<bar>m\<bar>"
    by (simp add: split padded_def radix_val_zeros val)
  have lead: "\<not> (1 < length ip \<and> hd ip = CHR ''0'')"
  proof (cases "Suc (Suc k) \<le> length ds")
    case True
    then have "padded = ds" by (simp add: padded_def)
    with n(1) ne have "hd ip = hd ds" by (simp add: ip_def)
    moreover from True lz have "hd ds \<noteq> CHR ''0''" by simp
    ultimately show ?thesis by simp
  next
    case False
    then have "length padded = Suc (Suc k)" by (simp add: padded_def)
    then have "length ip = 1" by (simp add: ip_def n_def)
    then show ?thesis by simp
  qed
  have "decimal_text m k = (if m < 0 then ''-'' else []) @ ip @ CHR ''.'' # fp"
    by (simp add: decimal_text_def Let_def ds_def padded_def n_def ip_def fp_def)
  with ipd ipne lead fpd fplen pv show ?thesis
    by blast
qed

lemma parse_number_decimal_text:
  assumes "ok_follow rest"
  shows "parse_number (decimal_text (mantissa q d) k @ rest) = Some (JDec q d k, rest)"
proof -
  define m where "m = mantissa q d"
  from decimal_text_shape [of m k] obtain ip fp where
    shape: "decimal_text m k = (if m < 0 then ''-'' else []) @ ip @ CHR ''.'' # fp"
    and ip: "list_all is_digit ip" "ip \<noteq> []" "\<not> (1 < length ip \<and> hd ip = CHR ''0'')"
    and fp: "list_all is_digit fp" "length fp = Suc k"
    and pv: "radix_val 10 (ip @ fp) = \<bar>m\<bar>"
    by blast
  from fp(2) have fpne: "fp \<noteq> []" by auto
  have "nat (int (Suc k)) = Suc k"
    by simp
  then have sc: "scaled_value m (- int (Suc k)) = JDec q d k"
    by (simp add: scaled_value_def m_def decimal_mantissa del: decimal.simps of_nat_Suc)
  show ?thesis
  proof (cases "m < 0")
    case True
    with parse_number_fraction(2) [OF ip fp(1) fpne assms] pv sc shape show ?thesis
      by (simp add: fp(2) m_def)
  next
    case False
    with parse_number_fraction(1) [OF ip fp(1) fpne assms] pv sc shape show ?thesis
      by (simp add: fp(2) m_def)
  qed
qed

lemma decimal_text_hd:
  "decimal_text m k \<noteq> [] \<and> (is_digit (hd (decimal_text m k)) \<or> hd (decimal_text m k) = CHR ''-'')"
proof -
  from decimal_text_shape [of m k] obtain ip fp where
    shape: "decimal_text m k = (if m < 0 then ''-'' else []) @ ip @ CHR ''.'' # fp"
    and ip: "list_all is_digit ip" "ip \<noteq> []"
    by blast
  then show ?thesis
    by (cases ip) auto
qed

lemma parse_number_int_toString:
  assumes "ok_follow rest"
  shows "parse_number (int_toString i @ rest) = Some (JNum i, rest)"
proof (cases "i < 0")
  case True
  then have n: "0 \<le> - i" by simp
  from parse_number_digits(2)[OF nat_toString_digits[OF n] nat_toString_nonempty
      nat_toString_no_leading_zero[OF n] assms] radix_val_nat_toString[OF n] True
  show ?thesis by (simp add: int_toString_def)
next
  case False
  then have n: "0 \<le> i" by simp
  from parse_number_digits(1)[OF nat_toString_digits[OF n] nat_toString_nonempty
      nat_toString_no_leading_zero[OF n] assms] radix_val_nat_toString[OF n] False
  show ?thesis by (simp add: int_toString_def)
qed

text \<open>The first character of the text of a number.\<close>

lemma int_toString_hd:
  "int_toString i \<noteq> [] \<and> (is_digit (hd (int_toString i)) \<or> hd (int_toString i) = CHR ''-'')"
proof (cases "i < 0")
  case True
  then show ?thesis by (simp add: int_toString_def)
next
  case False
  then have n: "0 \<le> i" by simp
  from nat_toString_digits[OF n] nat_toString_nonempty[of i] False show ?thesis
    by (cases "nat_toString i") (auto simp: int_toString_def)
qed

lemma value_start_props:
  assumes "value_start c"
  shows "\<not> is_json_ws c" "c \<noteq> CHR '']''" "c \<noteq> CHR ''}''"
  using assms by (auto simp: value_start_def is_digit_def is_json_ws_def)

lemma skip_ws_Cons: "\<not> is_json_ws c \<Longrightarrow> skip_ws (c # cs) = c # cs"
  by (simp add: skip_ws_def)

lemma skip_ws_punct [simp]:
  "skip_ws (CHR '','' # cs) = CHR '','' # cs"
  "skip_ws (CHR '']'' # cs) = CHR '']'' # cs"
  "skip_ws (CHR ''}'' # cs) = CHR ''}'' # cs"
  "skip_ws (CHR '':'' # cs) = CHR '':'' # cs"
  "skip_ws (CHR 0x22 # cs) = CHR 0x22 # cs"
  "skip_ws [] = []"
  by (simp_all add: skip_ws_def is_json_ws_def)

lemma stringify_start: "\<exists>c cs. JSON_stringify j = c # cs \<and> value_start c"
proof (cases j)
  case (JNum i)
  from int_toString_hd[of i] show ?thesis
    by (cases "int_toString i") (auto simp: JNum value_start_def)
next
  case (JDec q d k)
  from decimal_text_hd[of "mantissa q d" k] show ?thesis
    by (cases "decimal_text (mantissa q d) k") (auto simp: JDec value_start_def)
qed (auto simp: value_start_def quote_def)

lemma stringify_elements_start:
  "xs \<noteq> [] \<Longrightarrow> \<exists>c cs. stringify_elements xs = c # cs \<and> value_start c"
proof (cases xs)
  case (Cons x ys)
  from stringify_start[of x] obtain c cs where "JSON_stringify x = c # cs" "value_start c" by blast
  with Cons show ?thesis by (cases ys) auto
qed simp

lemma stringify_members_start:
  "kvs \<noteq> [] \<Longrightarrow> \<exists>cs. stringify_members kvs = CHR 0x22 # cs"
proof (cases kvs)
  case (Cons kv ys)
  then show ?thesis by (cases kv; cases ys) (auto simp: quote_def)
qed simp

lemma parse_value_number:
  assumes "cs \<noteq> []" "is_digit (hd cs) \<or> hd cs = CHR ''-''"
  shows "parse_value (Suc m) cs = parse_number cs"
proof -
  from assms obtain c r where cs: "cs = c # r" by (cases cs) auto
  with assms(2) have c: "is_digit c \<or> c = CHR ''-''" by simp
  then have ws: "\<not> is_json_ws c" by (auto simp: is_digit_def is_json_ws_def)
  from c have ne: "c \<noteq> CHR 0x22" "c \<noteq> CHR ''[''" "c \<noteq> CHR ''{''" "c \<noteq> CHR ''n''" "c \<noteq> CHR ''t''" "c \<noteq> CHR ''f''"
    by (auto simp: is_digit_def)
  show ?thesis
    unfolding cs using ne by (simp add: skip_ws_Cons[OF ws])
qed

lemma ok_follow_simps [simp]:
  "ok_follow (CHR '','' # cs)" "ok_follow (CHR '']'' # cs)" "ok_follow (CHR ''}'' # cs)" "ok_follow []"
  by (simp_all add: ok_follow_def)

lemma parse_stringify:
  "\<forall>n rest. length (JSON_stringify j) \<le> n \<longrightarrow> ok_follow rest \<longrightarrow>
      parse_value n (JSON_stringify j @ rest) = Some (j, rest)"
  "xs \<noteq> [] \<longrightarrow> (\<forall>n rest. length (stringify_elements xs) < n \<longrightarrow>
      parse_elements n (stringify_elements xs @ CHR '']'' # rest) = Some (xs, rest))"
  "kvs \<noteq> [] \<longrightarrow> (\<forall>n rest. length (stringify_members kvs) < n \<longrightarrow>
      parse_members n (stringify_members kvs @ CHR ''}'' # rest) = Some (kvs, rest))"
proof (induction j and xs and kvs rule: JSON_stringify_stringify_elements_stringify_members.induct)
  case 1
  show ?case
  proof (intro allI impI)
    fix n rest assume "length (JSON_stringify JNull) \<le> n"
    then obtain m where "n = Suc m" by (cases n) auto
    then show "parse_value n (JSON_stringify JNull @ rest) = Some (JNull, rest)"
      by (simp add: skip_ws_def is_json_ws_def)
  qed
next
  case (2 b)
  show ?case
  proof (intro allI impI)
    fix n rest assume "length (JSON_stringify (JBool b)) \<le> n"
    then obtain m where "n = Suc m" by (cases n) (auto split: if_splits)
    then show "parse_value n (JSON_stringify (JBool b) @ rest) = Some (JBool b, rest)"
      by (simp add: skip_ws_def is_json_ws_def)
  qed
next
  case (3 i)
  show ?case
  proof (intro allI impI)
    fix n rest assume len: "length (JSON_stringify (JNum i)) \<le> n" and f: "ok_follow rest"
    from int_toString_hd[of i] len obtain m where n: "n = Suc m" by (cases n) auto
    from int_toString_hd[of i]
    have "parse_value (Suc m) (int_toString i @ rest) = parse_number (int_toString i @ rest)"
      by (intro parse_value_number) auto
    with n f show "parse_value n (JSON_stringify (JNum i) @ rest) = Some (JNum i, rest)"
      by (simp add: parse_number_int_toString)
  qed
next
  case (4 q d k)
  show ?case
  proof (intro allI impI)
    fix n rest assume len: "length (JSON_stringify (JDec q d k)) \<le> n" and f: "ok_follow rest"
    from decimal_text_hd[of "mantissa q d" k] len obtain m where n: "n = Suc m" by (cases n) auto
    from decimal_text_hd[of "mantissa q d" k]
    have "parse_value (Suc m) (decimal_text (mantissa q d) k @ rest)
            = parse_number (decimal_text (mantissa q d) k @ rest)"
      by (intro parse_value_number) auto
    with n f show "parse_value n (JSON_stringify (JDec q d k) @ rest) = Some (JDec q d k, rest)"
      by (simp add: parse_number_decimal_text)
  qed
next
  case (5 s)
  show ?case
  proof (intro allI impI)
    fix n rest assume "length (JSON_stringify (JStr s)) \<le> n"
    then obtain m where "n = Suc m" by (cases n) (auto simp: quote_def)
    then show "parse_value n (JSON_stringify (JStr s) @ rest) = Some (JStr s, rest)"
      by (simp add: quote_def parse_chars_quoted)
  qed
next
  case (6 xs)
  show ?case
  proof (intro allI impI)
    fix n rest assume len: "length (JSON_stringify (JArr xs)) \<le> n"
    then obtain m where n: "n = Suc m" and m: "length (stringify_elements xs) < m"
      by (cases n) auto
    have ws: "skip_ws (CHR ''['' # cs) = CHR ''['' # cs" for cs
      by (simp add: skip_ws_def is_json_ws_def)
    show "parse_value n (JSON_stringify (JArr xs) @ rest) = Some (JArr xs, rest)"
    proof (cases "xs = []")
      case True
      with n show ?thesis by (simp add: ws)
    next
      case False
      from stringify_elements_start[OF False] obtain c cs where
        st: "stringify_elements xs = c # cs" and c: "value_start c" by blast
      from 6 False m have "parse_elements m (stringify_elements xs @ CHR '']'' # rest) = Some (xs, rest)"
        by blast
      moreover have "skip_ws (stringify_elements xs @ CHR '']'' # rest) = stringify_elements xs @ CHR '']'' # rest"
        using st value_start_props(1)[OF c] by (simp add: skip_ws_Cons)
      moreover have "hd (stringify_elements xs @ CHR '']'' # rest) \<noteq> CHR '']''"
        using st value_start_props(2)[OF c] by simp
      ultimately show ?thesis using n by (simp add: ws)
    qed
  qed
next
  case (7 kvs)
  show ?case
  proof (intro allI impI)
    fix n rest assume len: "length (JSON_stringify (JObj kvs)) \<le> n"
    then obtain m where n: "n = Suc m" and m: "length (stringify_members kvs) < m"
      by (cases n) auto
    have ws: "skip_ws (CHR ''{'' # cs) = CHR ''{'' # cs" for cs
      by (simp add: skip_ws_def is_json_ws_def)
    show "parse_value n (JSON_stringify (JObj kvs) @ rest) = Some (JObj kvs, rest)"
    proof (cases "kvs = []")
      case True
      with n show ?thesis by (simp add: ws)
    next
      case False
      from stringify_members_start[OF False] obtain cs where
        st: "stringify_members kvs = CHR 0x22 # cs" by blast
      from 7 False m have "parse_members m (stringify_members kvs @ CHR ''}'' # rest) = Some (kvs, rest)"
        by blast
      moreover have "skip_ws (stringify_members kvs @ CHR ''}'' # rest) = stringify_members kvs @ CHR ''}'' # rest"
        using st by simp
      moreover have "hd (stringify_members kvs @ CHR ''}'' # rest) \<noteq> CHR ''}''"
        using st by simp
      ultimately show ?thesis using n by (simp add: ws)
    qed
  qed
next
  case 8
  show ?case by simp
next
  case (9 x)
  show ?case
  proof (intro allI impI)
    fix n rest assume "length (stringify_elements [x]) < n"
    then obtain m where n: "n = Suc m" and m: "length (JSON_stringify x) \<le> m"
      by (cases n) auto
    from 9 m have "parse_value m (JSON_stringify x @ CHR '']'' # rest) = Some (x, CHR '']'' # rest)"
      by simp
    with n show "parse_elements n (stringify_elements [x] @ CHR '']'' # rest) = Some ([x], rest)"
      by simp
  qed
next
  case (10 x y ys)
  show ?case
  proof (intro allI impI)
    fix n rest assume "length (stringify_elements (x # y # ys)) < n"
    then obtain m where n: "n = Suc m" and m1: "length (JSON_stringify x) \<le> m"
      and m2: "length (stringify_elements (y # ys)) < m"
      by (cases n) auto
    from 10(1) m1 have "parse_value m (JSON_stringify x @ CHR '','' # stringify_elements (y # ys) @ CHR '']'' # rest)
        = Some (x, CHR '','' # stringify_elements (y # ys) @ CHR '']'' # rest)"
      by simp
    moreover from 10(2) m2 have "parse_elements m (stringify_elements (y # ys) @ CHR '']'' # rest) = Some (y # ys, rest)"
      by simp
    ultimately show "parse_elements n (stringify_elements (x # y # ys) @ CHR '']'' # rest) = Some (x # y # ys, rest)"
      using n by simp
  qed
next
  case 11
  show ?case by simp
next
  case (12 k v)
  show ?case
  proof (intro allI impI)
    fix n rest assume "length (stringify_members [(k, v)]) < n"
    then obtain m where n: "n = Suc m" and m: "length (JSON_stringify v) \<le> m"
      by (cases n) auto
    from 12 m have "parse_value m (JSON_stringify v @ CHR ''}'' # rest) = Some (v, CHR ''}'' # rest)"
      by simp
    with n show "parse_members n (stringify_members [(k, v)] @ CHR ''}'' # rest) = Some ([(k, v)], rest)"
      by (simp add: quote_def parse_chars_quoted)
  qed
next
  case (13 k v kv kvs)
  show ?case
  proof (intro allI impI)
    fix n rest assume "length (stringify_members ((k, v) # kv # kvs)) < n"
    then obtain m where n: "n = Suc m" and m1: "length (JSON_stringify v) \<le> m"
      and m2: "length (stringify_members (kv # kvs)) < m"
      by (cases n) auto
    from 13(1) m1 have "parse_value m (JSON_stringify v @ CHR '','' # stringify_members (kv # kvs) @ CHR ''}'' # rest)
        = Some (v, CHR '','' # stringify_members (kv # kvs) @ CHR ''}'' # rest)"
      by simp
    moreover from 13(2) m2 have "parse_members m (stringify_members (kv # kvs) @ CHR ''}'' # rest) = Some (kv # kvs, rest)"
      by simp
    ultimately show "parse_members n (stringify_members ((k, v) # kv # kvs) @ CHR ''}'' # rest) = Some ((k, v) # kv # kvs, rest)"
      using n by (simp add: quote_def parse_chars_quoted)
  qed
qed

lemma JSON_parse_numerals:
  "JSON_parse ''[1.5,-0.05,1.50,1e3,25E-1,-0,0.0]''
     = Inr (JArr [JDec 1 D5 0, JDec (- 1) D5 1, JDec 1 D5 0, JNum 1000, JDec 2 D5 0,
                  JNum 0, JNum 0])"
  "JSON_stringify (JArr [JDec 1 D5 0, JDec (- 1) D5 1, JNum 1000]) = ''[1.5,-0.05,1000]''"
  "JSON_parse ''1.'' = Inl (SyntaxError ''Unexpected token in JSON'')"
  "JSON_parse ''01'' = Inl (SyntaxError ''Unexpected token in JSON'')"
  by code_simp+

lemma JSON_parse_stringify: "JSON_parse (JSON_stringify j) = Inr j"
proof -
  have "parse_value (length (JSON_stringify j)) (JSON_stringify j @ []) = Some (j, [])"
    by (rule parse_stringify(1)[rule_format]) simp_all
  then show ?thesis
    by (simp add: JSON_parse_def)
qed

section \<open>Storage utilities never throw\<close>

lemma getItem_eq:
  "getItem key w = (Inr (if storage_disabled w then None else localStorage w key), w)"
  by (simp add: getItem_def try_catch_def localStorage_getItem_def js_return_def)

lemma setItem_eq:
  "setItem key val w =
     (if storage_disabled w \<or> storage_full w then (Inr False, w)
      else (Inr True, w\<lparr>localStorage := (localStorage w)(key \<mapsto> val)\<rparr>))"
  by (simp add: setItem_def try_catch_def js_bind_def localStorage_setItem_def js_return_def)

lemma removeItem_eq:
  "removeItem key w =
     (if storage_disabled w then (Inr False, w)
      else (Inr True, w\<lparr>localStorage := (localStorage w)(key := None)\<rparr>))"
  by (simp add: removeItem_def try_catch_def js_bind_def localStorage_removeItem_def js_return_def)

lemma keys_distinct [simp]:
  "REORDER_TIMESTAMP_KEY \<noteq> CACHE_CONFIG_KEY" "CACHE_CONFIG_KEY \<noteq> REORDER_TIMESTAMP_KEY"
  by (simp_all add: REORDER_TIMESTAMP_KEY_def CACHE_CONFIG_KEY_def)

lemma parseInt_Some_nonempty: "parseInt s = Some r \<Longrightarrow> s \<noteq> []"
  by (auto simp: parseInt_def)

lemma recent_reorder_Some:
  "parseInt s = Some r \<Longrightarrow> recent_reorder (Some s) now \<longleftrightarrow> now - r < 60000"
  by (auto simp: recent_reorder_def js_lt_def js_sub_def parseInt_Some_nonempty)

section \<open>The suppression window\<close>

text \<open>
  C1. Whenever a reorder timestamp is stored and \<open>now - lastReorderTimestamp < 60000\<close>,
  \<open>setCachedData\<close> is a no-op: it returns normally and leaves the whole state, the
  entry under \<open>gallery_cache\<close> included, exactly as it was.
\<close>

theorem setCachedData_suppressed:
  assumes "localStorage w REORDER_TIMESTAMP_KEY = Some s"
    and "parseInt s = Some r"
    and "now1 - r < 60000"
  shows "setCachedData payload now1 now2 w = (Inr (), w)"
proof (cases "storage_disabled w")
  case True
  then show ?thesis
    by (simp add: setCachedData_def try_catch_def js_bind_def getItem_eq setItem_eq
        js_return_def CACHE_CONFIG_VERSION_def recent_reorder_def)
next
  case False
  from assms(2,3) have "recent_reorder (Some s) now1"
    by (simp add: recent_reorder_Some)
  with False assms(1) show ?thesis
    by (simp add: setCachedData_def try_catch_def js_bind_def getItem_eq js_return_def)
qed

theorem setCachedData_suppressed_witness:
  "localStorage after_reorder REORDER_TIMESTAMP_KEY = Some ''1000000''
   \<and> parseInt ''1000000'' = Some 1000000
   \<and> (1030000 :: int) - 1000000 < 60000
   \<and> setCachedData (JArr []) 1030000 1030001 after_reorder = (Inr (), after_reorder)"
proof -
  have h1: "localStorage after_reorder REORDER_TIMESTAMP_KEY = Some ''1000000''"
    by (simp add: after_reorder_def)
  have h2: "parseInt ''1000000'' = Some 1000000"
    by code_simp
  have h3: "(1030000 :: int) - 1000000 < 60000"
    by simp
  from setCachedData_suppressed [OF h1 h2 h3] h1 h2 h3 show ?thesis
    by simp
qed

text \<open>
  C10. A read made while \<open>now - lastReorderTimestamp < 60000\<close> returns \<open>null\<close>
  whatever is stored under \<open>gallery_cache\<close>, and leaves the state, that entry
  included, untouched.
\<close>

theorem getCachedData_suppressed:
  assumes "localStorage w REORDER_TIMESTAMP_KEY = Some s"
    and "parseInt s = Some r"
    and "now1 - r < 60000"
  shows "getCachedData now1 now2 w = (Inr None, w)"
proof (cases "storage_disabled w")
  case True
  then show ?thesis
    by (simp add: getCachedData_def try_catch_def js_bind_def getItem_eq js_return_def
        recent_reorder_def)
next
  case False
  from assms(2,3) have "recent_reorder (Some s) now1"
    by (simp add: recent_reorder_Some)
  with False assms(1) show ?thesis
    by (simp add: getCachedData_def try_catch_def js_bind_def getItem_eq js_return_def)
qed

theorem getCachedData_suppressed_witness:
  "localStorage after_reorder REORDER_TIMESTAMP_KEY = Some ''1000000''
   \<and> parseInt ''1000000'' = Some 1000000
   \<and> (1030000 :: int) - 1000000 < 60000
   \<and> getCachedData 1030000 1030001 after_reorder = (Inr None, after_reorder)
   \<and> localStorage after_reorder CACHE_CONFIG_KEY
       = Some ''{\"data\":[],\"timestamp\":1000500,\"version\":\"v2\"}''"
proof -
  have h1: "localStorage after_reorder REORDER_TIMESTAMP_KEY = Some ''1000000''"
    by (simp add: after_reorder_def)
  have h2: "parseInt ''1000000'' = Some 1000000"
    by code_simp
  have h3: "(1030000 :: int) - 1000000 < 60000"
    by simp
  have h4: "localStorage after_reorder CACHE_CONFIG_KEY
       = Some ''{\"data\":[],\"timestamp\":1000500,\"version\":\"v2\"}''"
    by (simp add: after_reorder_def)
  from getCachedData_suppressed [OF h1 h2 h3] h1 h2 h3 h4 show ?thesis
    by simp
qed

section \<open>What the cache operations compute\<close>

lemma setCachedData_eq:
  "setCachedData payload now1 now2 w =
     (Inr (),
      if storage_disabled w \<or> storage_full w
           \<or> recent_reorder (localStorage w REORDER_TIMESTAMP_KEY) now1
      then w
      else w\<lparr>localStorage := (localStorage w)(CACHE_CONFIG_KEY \<mapsto>
             JSON_stringify (JObj [(''data'', payload), (''timestamp'', JNum now2),
                                   (''version'', JStr (CACHE_VERSION w))]))\<rparr>)"
  by (simp add: setCachedData_def try_catch_def js_bind_def getItem_eq setItem_eq
      js_return_def CACHE_CONFIG_VERSION_def recent_reorder_def Let_def)

lemma getCachedData_disabled:
  "storage_disabled w \<Longrightarrow> getCachedData now1 now2 w = (Inr None, w)"
  by (simp add: getCachedData_def try_catch_def js_bind_def getItem_eq js_return_def
      recent_reorder_def)

lemma getCachedData_recent:
  "recent_reorder (localStorage w REORDER_TIMESTAMP_KEY) now1 \<Longrightarrow>
     getCachedData now1 now2 w = (Inr None, w)"
  by (cases "storage_disabled w")
     (simp_all add: getCachedData_def try_catch_def js_bind_def getItem_eq js_return_def
      recent_reorder_def)

lemma getCachedData_eq:
  assumes "\<not> storage_disabled w"
    and "\<not> recent_reorder (localStorage w REORDER_TIMESTAMP_KEY) now1"
  shows "getCachedData now1 now2 w =
     (case localStorage w CACHE_CONFIG_KEY of
        None \<Rightarrow> (Inr None, w)
      | Some text \<Rightarrow>
          if text = [] then (Inr None, w)
          else
            (case JSON_parse text of
               Inl e \<Rightarrow> (Inr None, removed w)
             | Inr parsed \<Rightarrow>
                 (case get_prop (Some parsed) ''version'' of
                    Inl e \<Rightarrow> (Inr None, removed w)
                  | Inr version \<Rightarrow>
                      if version \<noteq> Some (JStr (CACHE_VERSION w)) then (Inr None, removed w)
                      else
                        (case get_prop (Some parsed) ''timestamp'' of
                           Inl e \<Rightarrow> (Inr None, removed w)
                         | Inr stamp \<Rightarrow>
                             (case ToNumber stamp of
                                Inl e \<Rightarrow> (Inr None, removed w)
                              | Inr t \<Rightarrow>
                                  if (case localStorage w REORDER_TIMESTAMP_KEY of
                                        None \<Rightarrow> False
                                      | Some s \<Rightarrow> s \<noteq> [] \<and> js_lt t (as_number (parseInt s)))
                                  then (Inr None, removed w)
                                  else if js_gt (js_sub (as_number (Some now2)) t)
                                            (as_number (Some CACHE_CONFIG_TTL))
                                  then (Inr None, removed w)
                                  else
                                    (case get_prop (Some parsed) ''data'' of
                                       Inl e \<Rightarrow> (Inr None, removed w)
                                     | Inr d \<Rightarrow>
                                         (Inr (Some \<lparr>data = d, timestamp = stamp,
                                                      age = js_sub (as_number (Some now2)) t\<rparr>), w)))))))"
  using assms
  by (simp add: getCachedData_def try_catch_def js_bind_def getItem_eq removeItem_eq
      js_return_def js_lift_def CACHE_CONFIG_VERSION_def removed_def Let_def
      split: option.splits sum.splits)


lemma recent_reorder_mono:
  "\<not> recent_reorder stored now1 \<Longrightarrow> now1 \<le> now3 \<Longrightarrow> \<not> recent_reorder stored now3"
  by (auto simp: recent_reorder_def js_lt_def js_sub_def split: option.splits)


section \<open>Entries older than the last reorder\<close>




section \<open>Entries past their time to live\<close>




section \<open>Failures stay inside the cache store\<close>

lemma invalidateGalleryCache_eq:
  "invalidateGalleryCache now w =
     (Inr (),
      (if storage_disabled w then w
       else if storage_full w
       then w\<lparr>localStorage := (localStorage w)(CACHE_CONFIG_KEY := None)\<rparr>
       else w\<lparr>localStorage := (localStorage w)(REORDER_TIMESTAMP_KEY \<mapsto> int_toString now,
                                                  CACHE_CONFIG_KEY := None)\<rparr>)
      \<lparr>CACHE_VERSION :=
         ''v'' @ Number_toString
           (js_add (parseInt (remove1 (CHR ''v'') (CACHE_VERSION w))) (Some 1))\<rparr>)"
  by (simp add: invalidateGalleryCache_def js_bind_def setItem_eq removeItem_eq js_return_def
      Number_toString_def)

lemma clearGalleryCache_eq:
  "clearGalleryCache w = (Inr (), if storage_disabled w then w else removed w)"
  by (simp add: clearGalleryCache_def js_bind_def removeItem_eq js_return_def removed_def)

lemma getCachedData_returns: "\<exists>r w'. getCachedData now1 now2 w = (Inr r, w')"
proof (cases "storage_disabled w \<or> recent_reorder (localStorage w REORDER_TIMESTAMP_KEY) now1")
  case True
  then show ?thesis
    by (auto simp: getCachedData_disabled getCachedData_recent)
next
  case False
  then show ?thesis
    by (simp add: getCachedData_eq split: option.splits sum.splits)
qed

lemma getCachedData_unusable:
  assumes "\<not> storage_disabled w"
    and "localStorage w CACHE_CONFIG_KEY = Some text"
    and "\<forall>parsed. JSON_parse text = Inr parsed \<longrightarrow>
           get_prop (Some parsed) ''version'' \<noteq> Inr (Some (JStr (CACHE_VERSION w)))"
  shows "getCachedData now1 now2 w =
     (Inr None,
      if recent_reorder (localStorage w REORDER_TIMESTAMP_KEY) now1 \<or> text = [] then w
      else w\<lparr>localStorage := (localStorage w)(CACHE_CONFIG_KEY := None)\<rparr>)"
proof (cases "recent_reorder (localStorage w REORDER_TIMESTAMP_KEY) now1")
  case True
  then show ?thesis
    by (simp add: getCachedData_recent)
next
  case False
  show ?thesis
    using False assms(2,3)
    by (auto simp: getCachedData_eq [OF assms(1) False] removed_def split: sum.splits)
qed

text \<open>An entry whose data holds a number with a fraction is read, served and kept.\<close>

lemma getCachedData_fraction_entry:
  "fst (getCachedData 1000100 1000100 fraction_entry)
     = Inr (Some \<lparr>data = Some (JObj [(''ratio'', JDec 1 D5 0)]),
                    timestamp = Some (JNum 1000000), age = Some 100\<rparr>)"
  "localStorage (snd (getCachedData 1000100 1000100 fraction_entry)) CACHE_CONFIG_KEY
     = Some ''{\"data\":{\"ratio\":1.5},\"timestamp\":1000000,\"version\":\"v2\"}''"
  by code_simp+

text \<open>
  C9, as stated, fails for the removal of an unparsable entry inside the suppression
  window: thirty seconds after a reorder, the read of an entry that is no JSON text
  returns \<open>null\<close> and leaves the entry stored.
\<close>

theorem cache_store_unparsable_counterexample:
  "localStorage garbled_in_window CACHE_CONFIG_KEY = Some ''{not json''
   \<and> JSON_parse ''{not json'' = Inl (SyntaxError ''Unexpected token in JSON'')
   \<and> fst (getCachedData 1030000 1030001 garbled_in_window) = Inr None
   \<and> localStorage (snd (getCachedData 1030000 1030001 garbled_in_window)) CACHE_CONFIG_KEY
       = Some ''{not json''"
proof -
  have h1: "localStorage garbled_in_window REORDER_TIMESTAMP_KEY = Some ''1000000''"
    by (simp add: garbled_in_window_def)
  have h2: "parseInt ''1000000'' = Some 1000000"
    by code_simp
  have h3: "JSON_parse ''{not json'' = Inl (SyntaxError ''Unexpected token in JSON'')"
    by code_simp
  have "recent_reorder (localStorage garbled_in_window REORDER_TIMESTAMP_KEY) 1030000"
    by (simp add: h1 recent_reorder_Some [OF h2])
  then have "getCachedData 1030000 1030001 garbled_in_window = (Inr None, garbled_in_window)"
    by (rule getCachedData_recent)
  with h3 show ?thesis
    by (simp add: garbled_in_window_def)
qed

text \<open>
  C9, amended. No operation of the cache store throws. With storage access failing, a
  read returns \<open>null\<close> and a write or a clear does nothing; with storage full, a
  write does nothing. For a stored value that does not parse to a value carrying the
  current version (it is no JSON text, or parses to \<open>null\<close>, or has another or no
  version), \<open>getCachedData\<close> returns \<open>null\<close>, and removes the entry unless the
  read falls into the 60 seconds after a reorder or the stored value is the empty
  string, in which cases the entry is left in place.
\<close>

theorem cache_store_never_throws:
  "(\<exists>r w'. getCachedData now1 now2 w = (Inr r, w'))
   \<and> (\<exists>w'. setCachedData payload now1 now2 w = (Inr (), w'))
   \<and> (\<exists>w'. clearGalleryCache w = (Inr (), w'))
   \<and> (\<exists>w'. invalidateGalleryCache now1 w = (Inr (), w'))
   \<and> (storage_disabled w \<longrightarrow>
        getCachedData now1 now2 w = (Inr None, w)
        \<and> setCachedData payload now1 now2 w = (Inr (), w)
        \<and> clearGalleryCache w = (Inr (), w))
   \<and> (storage_full w \<longrightarrow> setCachedData payload now1 now2 w = (Inr (), w))
   \<and> (\<not> storage_disabled w \<and> localStorage w CACHE_CONFIG_KEY = Some text
        \<and> (\<forall>parsed. JSON_parse text = Inr parsed \<longrightarrow>
              get_prop (Some parsed) ''version'' \<noteq> Inr (Some (JStr (CACHE_VERSION w))))
        \<longrightarrow> getCachedData now1 now2 w =
              (Inr None,
               if recent_reorder (localStorage w REORDER_TIMESTAMP_KEY) now1 \<or> text = [] then w
               else w\<lparr>localStorage := (localStorage w)(CACHE_CONFIG_KEY := None)\<rparr>))"
proof (intro conjI)
  show "\<exists>r w'. getCachedData now1 now2 w = (Inr r, w')"
    by (rule getCachedData_returns)
  show "\<exists>w'. setCachedData payload now1 now2 w = (Inr (), w')"
    by (simp add: setCachedData_eq)
  show "\<exists>w'. clearGalleryCache w = (Inr (), w')"
    by (simp add: clearGalleryCache_eq)
  show "\<exists>w'. invalidateGalleryCache now1 w = (Inr (), w')"
    by (simp add: invalidateGalleryCache_eq)
  show "storage_disabled w \<longrightarrow>
        getCachedData now1 now2 w = (Inr None, w)
        \<and> setCachedData payload now1 now2 w = (Inr (), w)
        \<and> clearGalleryCache w = (Inr (), w)"
    by (simp add: getCachedData_disabled setCachedData_eq clearGalleryCache_eq)
  show "storage_full w \<longrightarrow> setCachedData payload now1 now2 w = (Inr (), w)"
    by (simp add: setCachedData_eq)
  show "\<not> storage_disabled w \<and> localStorage w CACHE_CONFIG_KEY = Some text
        \<and> (\<forall>parsed. JSON_parse text = Inr parsed \<longrightarrow>
              get_prop (Some parsed) ''version'' \<noteq> Inr (Some (JStr (CACHE_VERSION w))))
        \<longrightarrow> getCachedData now1 now2 w =
              (Inr None,
               if recent_reorder (localStorage w REORDER_TIMESTAMP_KEY) now1 \<or> text = [] then w
               else w\<lparr>localStorage := (localStorage w)(CACHE_CONFIG_KEY := None)\<rparr>)"
    using getCachedData_unusable [of w "text" now1 now2] by blast
qed

theorem cache_store_never_throws_witness:
  "\<not> storage_disabled garbled_entry
   \<and> localStorage garbled_entry CACHE_CONFIG_KEY = Some ''{not json''
   \<and> JSON_parse ''{not json'' = Inl (SyntaxError ''Unexpected token in JSON'')
   \<and> \<not> recent_reorder (localStorage garbled_entry REORDER_TIMESTAMP_KEY) 5
   \<and> getCachedData 5 6 garbled_entry
       = (Inr None, garbled_entry\<lparr>localStorage :=
            (localStorage garbled_entry)(CACHE_CONFIG_KEY := None)\<rparr>)
   \<and> storage_disabled (garbled_entry\<lparr>storage_disabled := True\<rparr>)
   \<and> getCachedData 5 6 (garbled_entry\<lparr>storage_disabled := True\<rparr>)
       = (Inr None, garbled_entry\<lparr>storage_disabled := True\<rparr>)
   \<and> setCachedData (JArr []) 5 6 (garbled_entry\<lparr>storage_disabled := True\<rparr>)
       = (Inr (), garbled_entry\<lparr>storage_disabled := True\<rparr>)
   \<and> storage_full (garbled_entry\<lparr>storage_full := True\<rparr>)
   \<and> setCachedData (JArr []) 5 6 (garbled_entry\<lparr>storage_full := True\<rparr>)
       = (Inr (), garbled_entry\<lparr>storage_full := True\<rparr>)"
proof -
  have h0: "\<not> storage_disabled garbled_entry"
    by (simp add: garbled_entry_def page_load_def)
  have h1: "localStorage garbled_entry CACHE_CONFIG_KEY = Some ''{not json''"
    by (simp add: garbled_entry_def)
  have h2: "JSON_parse ''{not json'' = Inl (SyntaxError ''Unexpected token in JSON'')"
    by code_simp
  have h3: "\<not> recent_reorder (localStorage garbled_entry REORDER_TIMESTAMP_KEY) 5"
    by (simp add: garbled_entry_def recent_reorder_def)
  from cache_store_never_throws [of 5 6 garbled_entry "JArr []" "''{not json''"]
    cache_store_never_throws [of 5 6 "garbled_entry\<lparr>storage_disabled := True\<rparr>" "JArr []" "[]"]
    cache_store_never_throws [of 5 6 "garbled_entry\<lparr>storage_full := True\<rparr>" "JArr []" "[]"]
    h0 h1 h2 h3
  show ?thesis
    by simp
qed

section \<open>Two reorders in a row\<close>

lemma recent_reorder_int_toString:
  "recent_reorder (Some (int_toString t)) now \<longleftrightarrow> now - t < 60000"
  by (simp add: recent_reorder_Some [OF parseInt_int_toString])

lemma invalidateGalleryCache_refused:
  "storage_disabled v \<or> storage_full v \<Longrightarrow>
     localStorage (snd (invalidateGalleryCache now v)) REORDER_TIMESTAMP_KEY
       = localStorage v REORDER_TIMESTAMP_KEY"
  by (auto simp: invalidateGalleryCache_eq)

text \<open>
  C5, as stated, fails when the storage does not take the write of the latest call.
  After a reorder at time 1000000 the quota is used up; the call at time 1005000
  leaves the stored timestamp at 1000000, so at time 1062000, 57 seconds after the
  latest call, no window is in force. With the quota used up from the start, two
  calls leave no timestamp at all.
\<close>

theorem invalidateGalleryCache_twice_counterexample:
  "localStorage (snd (invalidateGalleryCache 1005000 filled_after_reorder)) REORDER_TIMESTAMP_KEY
     = Some ''1000000''
   \<and> int_toString 1005000 = ''1005000''
   \<and> (1062000 :: int) - 1005000 < 60000
   \<and> \<not> recent_reorder
         (localStorage (snd (invalidateGalleryCache 1005000 filled_after_reorder))
            REORDER_TIMESTAMP_KEY) 1062000
   \<and> localStorage
         (snd (invalidateGalleryCache 1005000
            (snd (invalidateGalleryCache 1000000 (page_load\<lparr>storage_full := True\<rparr>)))))
         REORDER_TIMESTAMP_KEY = None"
proof -
  have full: "storage_full filled_after_reorder"
    by (simp add: filled_after_reorder_def)
  have "localStorage filled_after_reorder REORDER_TIMESTAMP_KEY = Some (int_toString 1000000)"
    by (simp add: filled_after_reorder_def invalidateGalleryCache_eq page_load_def)
  moreover have "int_toString 1000000 = ''1000000''"
    by code_simp
  ultimately have kept:
    "localStorage (snd (invalidateGalleryCache 1005000 filled_after_reorder)) REORDER_TIMESTAMP_KEY
       = Some ''1000000''"
    using full by (simp add: invalidateGalleryCache_refused)
  have p: "parseInt ''1000000'' = Some 1000000"
    by code_simp
  have late: "\<not> recent_reorder (Some ''1000000'') 1062000"
    by (simp add: recent_reorder_Some [OF p])
  have five: "int_toString 1005000 = ''1005000''"
    by code_simp
  have none: "localStorage
         (snd (invalidateGalleryCache 1005000
            (snd (invalidateGalleryCache 1000000 (page_load\<lparr>storage_full := True\<rparr>)))))
         REORDER_TIMESTAMP_KEY = None"
    by (simp add: invalidateGalleryCache_eq page_load_def)
  from kept late five none show ?thesis
    by simp
qed

text \<open>
  C5, amended. When the storage takes writes, after two calls of
  \<open>invalidateGalleryCache\<close>, at times \<open>t1\<close> and then \<open>t2\<close>, the stored reorder
  timestamp is the text of \<open>t2\<close>, the storage is as after the single call at \<open>t2\<close>,
  and the guard of both cache operations holds exactly while \<open>now - t2 < 60000\<close>:
  until then writes and reads are suppressed, from then on a write stores an entry.
  A call made while storage access fails or the quota is used up leaves the stored
  reorder timestamp as it found it; after two such calls it is what it was before
  the first.
\<close>

theorem invalidateGalleryCache_twice:
  "(let w2 = snd (invalidateGalleryCache t2 (snd (invalidateGalleryCache t1 w))) in
      (\<not> storage_disabled w \<and> \<not> storage_full w \<longrightarrow>
         localStorage w2 REORDER_TIMESTAMP_KEY = Some (int_toString t2)
         \<and> parseInt (int_toString t2) = Some t2
         \<and> localStorage w2 = localStorage (snd (invalidateGalleryCache t2 w))
         \<and> (\<forall>now. recent_reorder (localStorage w2 REORDER_TIMESTAMP_KEY) now
                      \<longleftrightarrow> now - t2 < 60000)
         \<and> (\<forall>now now' payload. now - t2 < 60000 \<longrightarrow>
                setCachedData payload now now' w2 = (Inr (), w2)
                \<and> getCachedData now now' w2 = (Inr None, w2))
         \<and> (\<forall>now now' payload. 60000 \<le> now - t2 \<longrightarrow>
                localStorage (snd (setCachedData payload now now' w2)) CACHE_CONFIG_KEY \<noteq> None))
      \<and> (storage_disabled w \<or> storage_full w \<longrightarrow>
           localStorage w2 REORDER_TIMESTAMP_KEY = localStorage w REORDER_TIMESTAMP_KEY))
   \<and> (storage_disabled v \<or> storage_full v \<longrightarrow>
        localStorage (snd (invalidateGalleryCache t2 v)) REORDER_TIMESTAMP_KEY
          = localStorage v REORDER_TIMESTAMP_KEY)"
proof -
  define w2 where "w2 = snd (invalidateGalleryCache t2 (snd (invalidateGalleryCache t1 w)))"
  have working:
    "localStorage w2 REORDER_TIMESTAMP_KEY = Some (int_toString t2)
     \<and> parseInt (int_toString t2) = Some t2
     \<and> localStorage w2 = localStorage (snd (invalidateGalleryCache t2 w))
     \<and> (\<forall>now. recent_reorder (localStorage w2 REORDER_TIMESTAMP_KEY) now
                  \<longleftrightarrow> now - t2 < 60000)
     \<and> (\<forall>now now' payload. now - t2 < 60000 \<longrightarrow>
            setCachedData payload now now' w2 = (Inr (), w2)
            \<and> getCachedData now now' w2 = (Inr None, w2))
     \<and> (\<forall>now now' payload. 60000 \<le> now - t2 \<longrightarrow>
            localStorage (snd (setCachedData payload now now' w2)) CACHE_CONFIG_KEY \<noteq> None)"
    if on: "\<not> storage_disabled w" "\<not> storage_full w"
  proof -
    have st: "localStorage w2 = (localStorage w)(REORDER_TIMESTAMP_KEY \<mapsto> int_toString t2,
                                                 CACHE_CONFIG_KEY := None)"
      and ok: "\<not> storage_disabled w2" "\<not> storage_full w2"
      using on by (auto simp: w2_def invalidateGalleryCache_eq)
    have ts: "localStorage w2 REORDER_TIMESTAMP_KEY = Some (int_toString t2)"
      by (simp add: st)
    have one: "localStorage w2 = localStorage (snd (invalidateGalleryCache t2 w))"
      using on by (simp add: st invalidateGalleryCache_eq)
    have guard: "recent_reorder (localStorage w2 REORDER_TIMESTAMP_KEY) now \<longleftrightarrow> now - t2 < 60000"
      for now
      by (simp add: ts recent_reorder_int_toString)
    have blocked: "setCachedData payload now now' w2 = (Inr (), w2)
                  \<and> getCachedData now now' w2 = (Inr None, w2)"
      if "now - t2 < 60000" for now now' payload
      using that by (simp add: setCachedData_eq getCachedData_recent guard)
    have open_again: "localStorage (snd (setCachedData payload now now' w2)) CACHE_CONFIG_KEY \<noteq> None"
      if "60000 \<le> now - t2" for now now' payload
      using that ok by (simp add: setCachedData_eq guard)
    show ?thesis
      using ts one guard blocked open_again parseInt_int_toString by blast
  qed
  have refused: "localStorage w2 REORDER_TIMESTAMP_KEY = localStorage w REORDER_TIMESTAMP_KEY"
    if "storage_disabled w \<or> storage_full w"
    using that by (auto simp: w2_def invalidateGalleryCache_eq)
  have latest: "localStorage (snd (invalidateGalleryCache t2 v)) REORDER_TIMESTAMP_KEY
          = localStorage v REORDER_TIMESTAMP_KEY"
    if "storage_disabled v \<or> storage_full v"
    using that by (rule invalidateGalleryCache_refused)
  show ?thesis
    unfolding Let_def w2_def [symmetric]
    using working refused latest by blast
qed

theorem invalidateGalleryCache_twice_witness:
  "\<not> storage_disabled page_load \<and> \<not> storage_full page_load
   \<and> localStorage (snd (invalidateGalleryCache 1005000 (snd (invalidateGalleryCache 1000000 page_load))))
        REORDER_TIMESTAMP_KEY = Some (int_toString 1005000)
   \<and> int_toString 1005000 = ''1005000''
   \<and> (1064999 :: int) - 1005000 < 60000
   \<and> setCachedData (JArr []) 1064999 1064999
        (snd (invalidateGalleryCache 1005000 (snd (invalidateGalleryCache 1000000 page_load))))
      = (Inr (), snd (invalidateGalleryCache 1005000 (snd (invalidateGalleryCache 1000000 page_load))))
   \<and> (60000 :: int) \<le> 1065000 - 1005000
   \<and> localStorage (snd (setCachedData (JArr []) 1065000 1065000
        (snd (invalidateGalleryCache 1005000 (snd (invalidateGalleryCache 1000000 page_load))))))
        CACHE_CONFIG_KEY \<noteq> None
   \<and> storage_full quota_exceeded
   \<and> localStorage (snd (invalidateGalleryCache 1005000 (snd (invalidateGalleryCache 1000000 quota_exceeded))))
        REORDER_TIMESTAMP_KEY = localStorage quota_exceeded REORDER_TIMESTAMP_KEY
   \<and> storage_full filled_after_reorder
   \<and> localStorage (snd (invalidateGalleryCache 1005000 filled_after_reorder)) REORDER_TIMESTAMP_KEY
        = localStorage filled_after_reorder REORDER_TIMESTAMP_KEY"
proof -
  have h1: "\<not> storage_disabled page_load" and h2: "\<not> storage_full page_load"
    by (simp_all add: page_load_def)
  have h3: "int_toString 1005000 = ''1005000''"
    by code_simp
  have h4: "(1064999 :: int) - 1005000 < 60000"
    by simp
  have h5: "(60000 :: int) \<le> 1065000 - 1005000"
    by simp
  have h6: "storage_full quota_exceeded"
    by (simp add: quota_exceeded_def)
  have h7: "storage_full filled_after_reorder"
    by (simp add: filled_after_reorder_def)
  from invalidateGalleryCache_twice [of 1005000 1000000 page_load filled_after_reorder]
    invalidateGalleryCache_twice [of 1005000 1000000 quota_exceeded filled_after_reorder]
    h1 h2 h3 h4 h5 h6 h7
  show ?thesis
    unfolding Let_def by blast
qed

section \<open>Writing and reading back\<close>

text \<open>
  C3, as stated, fails when the storage does not take the write. With the quota used
  up, a payload written over the entry stamped 1000000 is dropped, and the read that
  follows returns the data of that older entry; with storage access failing, the read
  returns \<open>null\<close>.
\<close>

theorem cache_round_trip_counterexample:
  "\<not> recent_reorder (localStorage quota_exceeded REORDER_TIMESTAMP_KEY) 1000100
   \<and> (1000103 :: int) - 1000101 \<le> CACHE_CONFIG_TTL
   \<and> getCachedData 1000102 1000103
        (snd (setCachedData (JObj [(''images'', JArr [JStr ''a.jpg''])]) 1000100 1000101
                quota_exceeded))
      = (Inr (Some \<lparr>data = Some (JArr []), timestamp = Some (JNum 1000000),
                     age = Some 103\<rparr>), quota_exceeded)
   \<and> getCachedData 1000102 1000103
        (snd (setCachedData (JObj [(''images'', JArr [JStr ''a.jpg''])]) 1000100 1000101
                (page_load\<lparr>storage_disabled := True\<rparr>)))
      = (Inr None, page_load\<lparr>storage_disabled := True\<rparr>)"
proof -
  have nr: "\<not> recent_reorder (localStorage quota_exceeded REORDER_TIMESTAMP_KEY) n" for n
    by (simp add: quota_exceeded_def expired_entry_def recent_reorder_def)
  have dropped: "snd (setCachedData payload 1000100 1000101 quota_exceeded) = quota_exceeded"
    for payload
    by (simp add: setCachedData_eq quota_exceeded_def)
  have on: "\<not> storage_disabled quota_exceeded"
    by (simp add: quota_exceeded_def expired_entry_def page_load_def)
  have stored: "localStorage quota_exceeded CACHE_CONFIG_KEY
      = Some ''{\"data\":[],\"timestamp\":1000000,\"version\":\"v2\"}''"
    and cv: "CACHE_VERSION quota_exceeded = ''v2''"
    and marker: "localStorage quota_exceeded REORDER_TIMESTAMP_KEY = None"
    by (simp_all add: quota_exceeded_def expired_entry_def page_load_def)
  have parsed: "JSON_parse ''{\"data\":[],\"timestamp\":1000000,\"version\":\"v2\"}''
       = Inr (JObj [(''data'', JArr []), (''timestamp'', JNum 1000000), (''version'', JStr ''v2'')])"
    by code_simp
  have old: "getCachedData 1000102 1000103 quota_exceeded
      = (Inr (Some \<lparr>data = Some (JArr []), timestamp = Some (JNum 1000000),
                     age = Some 103\<rparr>), quota_exceeded)"
    by (simp add: getCachedData_eq [OF on nr] stored parsed cv marker get_prop_def ToNumber_def
        js_gt_def js_lt_def js_sub_def as_number_def CACHE_CONFIG_TTL_def)
  have off: "getCachedData 1000102 1000103
        (snd (setCachedData payload 1000100 1000101 (page_load\<lparr>storage_disabled := True\<rparr>)))
      = (Inr None, page_load\<lparr>storage_disabled := True\<rparr>)" for payload
    by (simp add: setCachedData_eq getCachedData_disabled)
  from nr old dropped off show ?thesis
    by (simp add: CACHE_CONFIG_TTL_def)
qed

text \<open>
  C3, amended. When the storage takes the write and no reorder happened in the 60
  seconds before it, a payload written by \<open>setCachedData\<close> and read by
  \<open>getCachedData\<close> on the resulting state, the clock not running backwards and the
  read within the TTL of the write, is returned as it was written, with the write's
  timestamp and its age. When storage access fails or the quota is used up, the write
  changes nothing, and the read that follows is a read of the state before the write.
\<close>

theorem cache_round_trip:
  "(\<not> storage_disabled w \<and> \<not> storage_full w
      \<and> \<not> recent_reorder (localStorage w REORDER_TIMESTAMP_KEY) now1
      \<and> now1 \<le> now2 \<and> now2 \<le> now3 \<and> now3 \<le> now4
      \<and> now4 - now2 \<le> CACHE_CONFIG_TTL \<longrightarrow>
      getCachedData now3 now4 (snd (setCachedData payload now1 now2 w)) =
        (Inr (Some \<lparr>data = Some payload, timestamp = Some (JNum now2),
                     age = Some (of_int (now4 - now2))\<rparr>),
         snd (setCachedData payload now1 now2 w)))
   \<and> (storage_disabled w \<or> storage_full w \<longrightarrow>
        setCachedData payload now1 now2 w = (Inr (), w)
        \<and> getCachedData now3 now4 (snd (setCachedData payload now1 now2 w))
            = getCachedData now3 now4 w)"
proof -
  have written: "getCachedData now3 now4 (snd (setCachedData payload now1 now2 w)) =
        (Inr (Some \<lparr>data = Some payload, timestamp = Some (JNum now2),
                     age = Some (of_int (now4 - now2))\<rparr>),
         snd (setCachedData payload now1 now2 w))"
    if on: "\<not> storage_disabled w" "\<not> storage_full w"
      and quiet: "\<not> recent_reorder (localStorage w REORDER_TIMESTAMP_KEY) now1"
      and clock: "now1 \<le> now2" "now2 \<le> now3" "now3 \<le> now4"
      and within: "now4 - now2 \<le> CACHE_CONFIG_TTL"
  proof -
    define entry where
      "entry = JObj [(''data'', payload), (''timestamp'', JNum now2),
                     (''version'', JStr (CACHE_VERSION w))]"
    define w1 where "w1 = snd (setCachedData payload now1 now2 w)"
    have w1: "w1 = w\<lparr>localStorage := (localStorage w)(CACHE_CONFIG_KEY \<mapsto> JSON_stringify entry)\<rparr>"
      using on quiet by (simp add: w1_def setCachedData_eq entry_def)
    have en: "storage_disabled w1 = False"
      using on(1) by (simp add: w1)
    have re: "localStorage w1 REORDER_TIMESTAMP_KEY = localStorage w REORDER_TIMESTAMP_KEY"
      by (simp add: w1)
    have nr: "\<not> recent_reorder (localStorage w1 REORDER_TIMESTAMP_KEY) now3"
      using quiet clock(1,2) by (simp add: re recent_reorder_mono [of _ now1 now3])
    have ne: "JSON_stringify entry \<noteq> []"
      by (simp add: entry_def)
    have fresh: "\<not> (case localStorage w REORDER_TIMESTAMP_KEY of
                      None \<Rightarrow> False
                    | Some s \<Rightarrow> s \<noteq> [] \<and> js_lt (as_number (Some now2)) (as_number (parseInt s)))"
      using quiet clock(1)
      by (auto simp: recent_reorder_def js_lt_def js_sub_def as_number_def split: option.splits)
    have ttl: "\<not> js_gt (js_sub (as_number (Some now4)) (as_number (Some now2)))
                       (as_number (Some CACHE_CONFIG_TTL))"
      using within by (simp add: js_gt_def js_lt_def js_sub_def as_number_def flip: of_int_diff)
    have stored: "localStorage w1 CACHE_CONFIG_KEY = Some (JSON_stringify entry)"
      and cv: "CACHE_VERSION w1 = CACHE_VERSION w"
      by (simp_all add: w1)
    have props: "get_prop (Some entry) ''version'' = Inr (Some (JStr (CACHE_VERSION w)))"
      "get_prop (Some entry) ''timestamp'' = Inr (Some (JNum now2))"
      "get_prop (Some entry) ''data'' = Inr (Some payload)"
      by (simp_all add: entry_def get_prop_def)
    have num: "ToNumber (Some (JNum now2)) = Inr (as_number (Some now2))"
      by (simp add: ToNumber_def as_number_def)
    have "getCachedData now3 now4 w1 =
            (Inr (Some \<lparr>data = Some payload, timestamp = Some (JNum now2),
                         age = Some (of_int (now4 - now2))\<rparr>), w1)"
      using fresh ttl ne
      by (simp add: getCachedData_eq [OF _ nr] en re stored JSON_parse_stringify props cv num)
         (simp add: js_sub_def as_number_def)
    then show ?thesis
      by (simp add: w1_def)
  qed
  have dropped: "setCachedData payload now1 now2 w = (Inr (), w)"
    if "storage_disabled w \<or> storage_full w"
    using that by (auto simp: setCachedData_eq)
  from written dropped show ?thesis
    by auto
qed

theorem cache_round_trip_witness:
  "\<not> storage_disabled page_load \<and> \<not> storage_full page_load
   \<and> \<not> recent_reorder (localStorage page_load REORDER_TIMESTAMP_KEY) 1000
   \<and> (1000 :: int) \<le> 1001 \<and> (1001 :: int) \<le> 1002 \<and> (1002 :: int) \<le> 1003
   \<and> (1003 :: int) - 1001 \<le> CACHE_CONFIG_TTL
   \<and> getCachedData 1002 1003
        (snd (setCachedData (JObj [(''images'', JArr [JStr ''a.jpg'']), (''ratio'', JDec 1 D5 0)])
                1000 1001 page_load))
      = (Inr (Some \<lparr>data = Some (JObj [(''images'', JArr [JStr ''a.jpg'']),
                                       (''ratio'', JDec 1 D5 0)]),
                     timestamp = Some (JNum 1001), age = Some (of_int (1003 - 1001))\<rparr>),
         snd (setCachedData (JObj [(''images'', JArr [JStr ''a.jpg'']), (''ratio'', JDec 1 D5 0)])
                1000 1001 page_load))
   \<and> localStorage
        (snd (setCachedData (JObj [(''images'', JArr [JStr ''a.jpg'']), (''ratio'', JDec 1 D5 0)])
                1000 1001 page_load)) CACHE_CONFIG_KEY
      = Some ''{\"data\":{\"images\":[\"a.jpg\"],\"ratio\":1.5},\"timestamp\":1001,\"version\":\"v2\"}''
   \<and> storage_full quota_exceeded
   \<and> setCachedData (JArr [JNum 7]) 1000100 1000101 quota_exceeded = (Inr (), quota_exceeded)"
proof -
  have h1: "\<not> storage_disabled page_load" and h2: "\<not> storage_full page_load"
    by (simp_all add: page_load_def)
  have h3: "\<not> recent_reorder (localStorage page_load REORDER_TIMESTAMP_KEY) 1000"
    by (simp add: page_load_def recent_reorder_def)
  have h4: "(1000 :: int) \<le> 1001" and h5: "(1001 :: int) \<le> 1002" and h6: "(1002 :: int) \<le> 1003"
    by simp_all
  have h7: "(1003 :: int) - 1001 \<le> CACHE_CONFIG_TTL"
    by (simp add: CACHE_CONFIG_TTL_def)
  have h8: "storage_full quota_exceeded"
    by (simp add: quota_exceeded_def)
  have h9: "localStorage
        (snd (setCachedData (JObj [(''images'', JArr [JStr ''a.jpg'']), (''ratio'', JDec 1 D5 0)])
                1000 1001 page_load)) CACHE_CONFIG_KEY
      = Some ''{\"data\":{\"images\":[\"a.jpg\"],\"ratio\":1.5},\"timestamp\":1001,\"version\":\"v2\"}''"
    by code_simp
  from cache_round_trip [of page_load 1000 1001 1002 1003
      "JObj [(''images'', JArr [JStr ''a.jpg'']), (''ratio'', JDec 1 D5 0)]"]
    cache_round_trip [of quota_exceeded 1000100 1000101 1000102 1000103 "JArr [JNum 7]"]
    h1 h2 h3 h4 h5 h6 h7 h8 h9
  show ?thesis
    by simp
qed

section \<open>Retries of the HTTP client\<close>

lemma fetch_eq:
  "fetch u w =
     (case network w (requests_sent w) u of Resolves r \<Rightarrow> Inr r | Rejects e \<Rightarrow> Inl e,
      w\<lparr>net_log := net_log w @ [Requested u]\<rparr>)"
  by (simp add: fetch_def requests_sent_def Let_def split: fetch_outcome.splits)

lemma retry_log_Suc:
  "Requested u # Waited CONNECTION_CONFIG_RETRY_DELAY # retry_log u k = retry_log u (Suc k)"
  by (simp add: retry_log_def)

lemma requests_sent_retry [simp]:
  "requests_sent (w\<lparr>net_log := net_log w @ [Requested u, Waited d]\<rparr>) = Suc (requests_sent w)"
  by (simp add: requests_sent_def is_request_def)

lemma fetchWithRetry_trace:
  "\<exists>k. int k \<le> max retries 0
     \<and> net_log (snd (fetchWithRetry u retries w)) = net_log w @ retry_log u k
     \<and> network (snd (fetchWithRetry u retries w)) = network w
     \<and> (\<forall>i<k. \<exists>e. network w (requests_sent w + i) u = Rejects e \<and> isNetworkError e)
     \<and> (case network w (requests_sent w + k) u of
           Resolves response \<Rightarrow> fst (fetchWithRetry u retries w) = Inr response
         | Rejects e \<Rightarrow>
             (\<exists>e'. fst (fetchWithRetry u retries w) = Inl e' \<and> name e' = name e)
             \<and> (isNetworkError e \<longrightarrow> int k = max retries 0))"
proof (induction u retries w rule: fetchWithRetry.induct)
  case (1 u retries w)
  let ?n = "requests_sent w"
  let ?w1 = "w\<lparr>net_log := net_log w @ [Requested u]\<rparr>"
  show ?case
  proof (cases "network w ?n u")
    case (Resolves response)
    then have "fetchWithRetry u retries w = (Inr response, ?w1)"
      by (subst fetchWithRetry.simps) (simp add: fetch_eq)
    with Resolves show ?thesis
      by (intro exI [of _ 0]) (simp add: retry_log_def)
  next
    case (Rejects e)
    show ?thesis
    proof (cases "retries > 0 \<and> isNetworkError e")
      case False
      then have "\<exists>e'. fetchWithRetry u retries w = (Inl e', ?w1) \<and> name e' = name e"
        using Rejects by (subst fetchWithRetry.simps) (auto simp: fetch_eq)
      with Rejects False show ?thesis
        by (intro exI [of _ 0]) (auto simp: retry_log_def)
    next
      case True
      let ?w2 = "?w1\<lparr>net_log := net_log ?w1 @ [Waited CONNECTION_CONFIG_RETRY_DELAY]\<rparr>"
      have f: "fetch u w = (Inl e, ?w1)"
        using Rejects by (simp add: fetch_eq)
      have wt: "wait CONNECTION_CONFIG_RETRY_DELAY ?w1 = (Inr (), ?w2)"
        by (simp add: wait_def)
      have unfold: "fetchWithRetry u retries w = fetchWithRetry u (retries - 1) ?w2"
        using True by (subst fetchWithRetry.simps) (simp add: f wt)
      from "1.IH" [OF f [symmetric] refl True wt [symmetric]]
      obtain k where k: "int k \<le> max (retries - 1) 0"
        and lg: "net_log (snd (fetchWithRetry u (retries - 1) ?w2)) = net_log ?w2 @ retry_log u k"
        and nw: "network (snd (fetchWithRetry u (retries - 1) ?w2)) = network ?w2"
        and pre: "\<forall>i<k. \<exists>e. network ?w2 (requests_sent ?w2 + i) u = Rejects e \<and> isNetworkError e"
        and fin: "(case network ?w2 (requests_sent ?w2 + k) u of
           Resolves response \<Rightarrow> fst (fetchWithRetry u (retries - 1) ?w2) = Inr response
         | Rejects e \<Rightarrow>
             (\<exists>e'. fst (fetchWithRetry u (retries - 1) ?w2) = Inl e' \<and> name e' = name e)
             \<and> (isNetworkError e \<longrightarrow> int k = max (retries - 1) 0))"
        by auto
      have cnt: "requests_sent ?w2 = Suc ?n"
        by (simp add: requests_sent_def is_request_def)
      have a: "int (Suc k) \<le> max retries 0"
        using k True by auto
      have b: "net_log (snd (fetchWithRetry u retries w)) = net_log w @ retry_log u (Suc k)"
        using lg by (simp add: unfold retry_log_Suc [symmetric])
      have c: "network (snd (fetchWithRetry u retries w)) = network w"
        using nw by (simp add: unfold)
      have d: "\<forall>i<Suc k. \<exists>e. network w (?n + i) u = Rejects e \<and> isNetworkError e"
      proof (intro allI impI)
        fix i assume "i < Suc k"
        show "\<exists>e. network w (?n + i) u = Rejects e \<and> isNetworkError e"
        proof (cases i)
          case 0
          with Rejects True show ?thesis by simp
        next
          case (Suc j)
          with \<open>i < Suc k\<close> pre have "\<exists>e. network ?w2 (requests_sent ?w2 + j) u = Rejects e \<and> isNetworkError e"
            by simp
          with Suc show ?thesis by simp
        qed
      qed
      have e: "(case network w (?n + Suc k) u of
           Resolves response \<Rightarrow> fst (fetchWithRetry u retries w) = Inr response
         | Rejects e \<Rightarrow>
             (\<exists>e'. fst (fetchWithRetry u retries w) = Inl e' \<and> name e' = name e)
             \<and> (isNetworkError e \<longrightarrow> int (Suc k) = max retries 0))"
        using fin True by (auto simp: unfold split: fetch_outcome.splits)
      from a b c d e show ?thesis
        by blast
    qed
  qed
qed


lemma fetchWithRetry_response:
  assumes "network w (requests_sent w) u = Resolves response"
  shows "fetchWithRetry u retries w = (Inr response, w\<lparr>net_log := net_log w @ [Requested u]\<rparr>)"
  using assms by (subst fetchWithRetry.simps) (simp add: fetch_eq)

text \<open>
  C8. A call of \<open>fetchWithRetry\<close> with the configured three retries sends the
  request, and then \<open>k \<le> 3\<close> times waits 1000 ms and sends it again. Each of the
  attempts before the last was rejected with an error the client classifies as a
  network error (a timeout's \<open>AbortError\<close> included). The last attempt either got a
  response, which is returned whatever its status, or was rejected, and then the
  error is thrown: it is no network error, or the three retries are used up. In
  particular a response to the first attempt, with status 4xx or 5xx as with any
  other, is returned at once, after one request and no delay, whatever \<open>retries\<close> is.
\<close>

theorem fetchWithRetry_policy:
  "(\<exists>k. k \<le> 3
      \<and> net_log (snd (fetchWithRetry u CONNECTION_CONFIG_RETRY_ATTEMPTS w))
          = net_log w @ Requested u # concat (replicate k [Waited 1000, Requested u])
      \<and> (\<forall>i<k. \<exists>e. network w (requests_sent w + i) u = Rejects e \<and> isNetworkError e)
      \<and> (case network w (requests_sent w + k) u of
            Resolves response \<Rightarrow>
              fst (fetchWithRetry u CONNECTION_CONFIG_RETRY_ATTEMPTS w) = Inr response
          | Rejects e \<Rightarrow>
              (\<exists>e'. fst (fetchWithRetry u CONNECTION_CONFIG_RETRY_ATTEMPTS w) = Inl e'
                    \<and> name e' = name e)
              \<and> (isNetworkError e \<longrightarrow> k = 3)))
   \<and> (\<forall>response retries. network w (requests_sent w) u = Resolves response \<longrightarrow>
        fetchWithRetry u retries w
          = (Inr response, w\<lparr>net_log := net_log w @ [Requested u]\<rparr>))"
proof -
  from fetchWithRetry_trace [of CONNECTION_CONFIG_RETRY_ATTEMPTS u w]
  obtain k where k: "int k \<le> max CONNECTION_CONFIG_RETRY_ATTEMPTS 0"
    and lg: "net_log (snd (fetchWithRetry u CONNECTION_CONFIG_RETRY_ATTEMPTS w))
               = net_log w @ retry_log u k"
    and pre: "\<forall>i<k. \<exists>e. network w (requests_sent w + i) u = Rejects e \<and> isNetworkError e"
    and fin: "(case network w (requests_sent w + k) u of
           Resolves response \<Rightarrow>
             fst (fetchWithRetry u CONNECTION_CONFIG_RETRY_ATTEMPTS w) = Inr response
         | Rejects e \<Rightarrow>
             (\<exists>e'. fst (fetchWithRetry u CONNECTION_CONFIG_RETRY_ATTEMPTS w) = Inl e'
                   \<and> name e' = name e)
             \<and> (isNetworkError e \<longrightarrow> int k = max CONNECTION_CONFIG_RETRY_ATTEMPTS 0))"
    by blast
  have k3: "k \<le> 3"
    using k by (simp add: CONNECTION_CONFIG_RETRY_ATTEMPTS_def)
  have lg': "net_log (snd (fetchWithRetry u CONNECTION_CONFIG_RETRY_ATTEMPTS w))
          = net_log w @ Requested u # concat (replicate k [Waited 1000, Requested u])"
    using lg by (simp add: retry_log_def CONNECTION_CONFIG_RETRY_DELAY_def)
  have fin': "(case network w (requests_sent w + k) u of
            Resolves response \<Rightarrow>
              fst (fetchWithRetry u CONNECTION_CONFIG_RETRY_ATTEMPTS w) = Inr response
          | Rejects e \<Rightarrow>
              (\<exists>e'. fst (fetchWithRetry u CONNECTION_CONFIG_RETRY_ATTEMPTS w) = Inl e'
                    \<and> name e' = name e)
              \<and> (isNetworkError e \<longrightarrow> k = 3))"
    using fin by (auto simp: CONNECTION_CONFIG_RETRY_ATTEMPTS_def split: fetch_outcome.splits)
  from k3 lg' pre fin' fetchWithRetry_response show ?thesis
    by blast
qed

theorem fetchWithRetry_policy_witness:
  "network flaky 0 gallery_url = Rejects \<lparr>name = ''TypeError'', message = ''Failed to fetch''\<rparr>
   \<and> network flaky 1 gallery_url = Rejects \<lparr>name = ''TypeError'', message = ''Failed to fetch''\<rparr>
   \<and> isNetworkError \<lparr>name = ''TypeError'', message = ''Failed to fetch''\<rparr>
   \<and> network flaky 2 gallery_url = Resolves \<lparr>status = 503, body = ''Service Unavailable''\<rparr>
   \<and> fst (fetchWithRetry gallery_url CONNECTION_CONFIG_RETRY_ATTEMPTS flaky)
       = Inr \<lparr>status = 503, body = ''Service Unavailable''\<rparr>
   \<and> net_log (snd (fetchWithRetry gallery_url CONNECTION_CONFIG_RETRY_ATTEMPTS flaky))
       = [Requested gallery_url, Waited 1000, Requested gallery_url, Waited 1000,
          Requested gallery_url]
   \<and> network page_load 3 gallery_url
       = Rejects \<lparr>name = ''TypeError'', message = ''Failed to fetch''\<rparr>
   \<and> name (projl (fst (fetchWithRetry gallery_url CONNECTION_CONFIG_RETRY_ATTEMPTS page_load)))
       = ''TypeError''
   \<and> net_log (snd (fetchWithRetry gallery_url CONNECTION_CONFIG_RETRY_ATTEMPTS page_load))
       = [Requested gallery_url, Waited 1000, Requested gallery_url, Waited 1000,
          Requested gallery_url, Waited 1000, Requested gallery_url]"
proof -
  have ev: "network flaky 0 gallery_url = Rejects \<lparr>name = ''TypeError'', message = ''Failed to fetch''\<rparr>"
    "network flaky 1 gallery_url = Rejects \<lparr>name = ''TypeError'', message = ''Failed to fetch''\<rparr>"
    "network flaky 2 gallery_url = Resolves \<lparr>status = 503, body = ''Service Unavailable''\<rparr>"
    by (simp_all add: flaky_def)
  have ne: "isNetworkError \<lparr>name = ''TypeError'', message = ''Failed to fetch''\<rparr>"
    by (simp add: isNetworkError_def)
  have run: "fst (fetchWithRetry gallery_url CONNECTION_CONFIG_RETRY_ATTEMPTS flaky)
       = Inr \<lparr>status = 503, body = ''Service Unavailable''\<rparr>"
    "net_log (snd (fetchWithRetry gallery_url CONNECTION_CONFIG_RETRY_ATTEMPTS flaky))
       = [Requested gallery_url, Waited 1000, Requested gallery_url, Waited 1000,
          Requested gallery_url]"
    by (simp_all add: fetchWithRetry.simps fetch_def wait_def flaky_def page_load_def
        CONNECTION_CONFIG_RETRY_ATTEMPTS_def CONNECTION_CONFIG_RETRY_DELAY_def
        is_request_def isNetworkError_def ok_def Let_def)
  have off: "network page_load 3 gallery_url
       = Rejects \<lparr>name = ''TypeError'', message = ''Failed to fetch''\<rparr>"
    by (simp add: page_load_def offline_def)
  have run_off:
    "name (projl (fst (fetchWithRetry gallery_url CONNECTION_CONFIG_RETRY_ATTEMPTS page_load)))
       = ''TypeError''"
    "net_log (snd (fetchWithRetry gallery_url CONNECTION_CONFIG_RETRY_ATTEMPTS page_load))
       = [Requested gallery_url, Waited 1000, Requested gallery_url, Waited 1000,
          Requested gallery_url, Waited 1000, Requested gallery_url]"
    by (simp_all add: fetchWithRetry.simps fetch_def wait_def page_load_def offline_def
        CONNECTION_CONFIG_RETRY_ATTEMPTS_def CONNECTION_CONFIG_RETRY_DELAY_def
        is_request_def isNetworkError_def ok_def Let_def)
  from fetchWithRetry_policy [of gallery_url flaky] fetchWithRetry_policy [of gallery_url page_load]
    ev ne run off run_off
  show ?thesis
    by simp
qed

section \<open>One load-more fetch at a time\<close>

lemma loadMoreImages_begin_guard:
  "isLoading w \<or> \<not> truthy (hasMore w) \<Longrightarrow> loadMoreImages_begin w = (Inr None, w)"
  by (auto simp: loadMoreImages_begin_def js_bind_def getIsLoading_def getHasMore_def
      js_return_def)

lemma loadMoreImages_begin_cases:
  "loadMoreImages_begin w = (Inr None, w)
   \<or> (\<exists>cursor w'. loadMoreImages_begin w = (Inr (Some cursor), w')
         \<and> \<not> isLoading w \<and> truthy (hasMore w) \<and> isLoading w'
         \<and> cursor = nextCursor w \<and> net_log w' = net_log w
         \<and> localStorage w' = localStorage w)"
  by (auto simp: loadMoreImages_begin_def js_bind_def getIsLoading_def getHasMore_def
      js_return_def querySelector_load_more_btn_def setIsLoading_def set_button_def
      getNextCursor_def)

lemma loadMoreImages_resume_clears:
  "isLoading (snd (loadMoreImages_resume settled now1 now2 w)) = False"
  by (simp add: loadMoreImages_resume_def try_finally_def setIsLoading_def
      split: prod.splits sum.splits)

lemma loadMoreImages_guard:
  "isLoading w \<or> \<not> truthy (hasMore w) \<Longrightarrow> loadMoreImages now1 now2 w = (Inr (), w)"
  by (simp add: loadMoreImages_def js_bind_def loadMoreImages_begin_guard js_return_def)

lemma step_invariant:
  assumes "p \<le> 1" and "p = 1 \<longrightarrow> isLoading w"
  shows "snd (step (w, p) ev) \<le> 1
         \<and> (snd (step (w, p) ev) = 1 \<longrightarrow> isLoading (fst (step (w, p) ev)))"
proof (cases ev)
  case Call_loadMoreImages
  from loadMoreImages_begin_cases [of w] show ?thesis
  proof
    assume "loadMoreImages_begin w = (Inr None, w)"
    with assms Call_loadMoreImages show ?thesis by simp
  next
    assume "\<exists>cursor w'. loadMoreImages_begin w = (Inr (Some cursor), w')
         \<and> \<not> isLoading w \<and> truthy (hasMore w) \<and> isLoading w'
         \<and> cursor = nextCursor w \<and> net_log w' = net_log w
         \<and> localStorage w' = localStorage w"
    then obtain cursor w' where b: "loadMoreImages_begin w = (Inr (Some cursor), w')"
      and "\<not> isLoading w" "isLoading w'"
      by blast
    with assms have "p = 0" by auto
    with b \<open>isLoading w'\<close> Call_loadMoreImages show ?thesis by simp
  qed
next
  case (Settled settled now1 now2)
  with assms show ?thesis
    by (auto simp: loadMoreImages_resume_clears)
qed

lemma run_invariant:
  "p \<le> 1 \<Longrightarrow> (p = 1 \<longrightarrow> isLoading w) \<Longrightarrow>
     snd (run (w, p) evs) \<le> 1 \<and> (snd (run (w, p) evs) = 1 \<longrightarrow> isLoading (fst (run (w, p) evs)))"
proof (induction evs arbitrary: w p)
  case Nil
  then show ?case by (simp add: run_def)
next
  case (Cons ev evs)
  obtain w' p' where s: "step (w, p) ev = (w', p')" by (cases "step (w, p) ev")
  from step_invariant [OF Cons.prems, of ev] s have "p' \<le> 1" "p' = 1 \<longrightarrow> isLoading w'"
    by simp_all
  from Cons.IH [OF this] s show ?case
    by (simp add: run_def)
qed

text \<open>
  C7. With the loading flag set, or \<open>hasMore\<close> falsy, a call of \<open>loadMoreImages\<close>
  changes nothing and sends no request. A call that does start a fetch found the flag
  clear and has set it by the time the fetch is started, no request having been sent
  before. When the fetch has settled, with a result or with an error, the resumed call
  leaves the flag clear. Hence, from a state with the flag clear and nothing pending,
  no sequence of calls and settlements brings more than one load-more fetch in flight,
  and a call made while one is in flight changes nothing.
\<close>

theorem loadMoreImages_single_flight:
  "(isLoading w \<or> \<not> truthy (hasMore w) \<longrightarrow>
      loadMoreImages_begin w = (Inr None, w) \<and> loadMoreImages now1 now2 w = (Inr (), w))
   \<and> (\<forall>cursor w'. loadMoreImages_begin w = (Inr (Some cursor), w') \<longrightarrow>
         \<not> isLoading w \<and> isLoading w' \<and> net_log w' = net_log w)
   \<and> isLoading (snd (loadMoreImages_resume settled now1 now2 w)) = False
   \<and> (\<not> isLoading w \<longrightarrow> snd (run (w, 0) events) \<le> 1)
   \<and> (\<not> isLoading w \<and> snd (run (w, 0) events) = 1 \<longrightarrow>
         step (run (w, 0) events) Call_loadMoreImages = run (w, 0) events)"
proof (intro conjI)
  show "isLoading w \<or> \<not> truthy (hasMore w) \<longrightarrow>
      loadMoreImages_begin w = (Inr None, w) \<and> loadMoreImages now1 now2 w = (Inr (), w)"
    by (simp add: loadMoreImages_begin_guard loadMoreImages_guard)
  show "\<forall>cursor w'. loadMoreImages_begin w = (Inr (Some cursor), w') \<longrightarrow>
         \<not> isLoading w \<and> isLoading w' \<and> net_log w' = net_log w"
    using loadMoreImages_begin_cases [of w] by auto
  show "isLoading (snd (loadMoreImages_resume settled now1 now2 w)) = False"
    by (rule loadMoreImages_resume_clears)
  show "\<not> isLoading w \<longrightarrow> snd (run (w, 0) events) \<le> 1"
    using run_invariant [of 0 w events] by simp
  show "\<not> isLoading w \<and> snd (run (w, 0) events) = 1 \<longrightarrow>
         step (run (w, 0) events) Call_loadMoreImages = run (w, 0) events"
  proof
    assume a: "\<not> isLoading w \<and> snd (run (w, 0) events) = 1"
    obtain w' p' where r: "run (w, 0) events = (w', p')" by (cases "run (w, 0) events")
    from run_invariant [of 0 w events] a r have "isLoading w'" by simp
    then have "loadMoreImages_begin w' = (Inr None, w')"
      by (simp add: loadMoreImages_begin_guard)
    with r show "step (run (w, 0) events) Call_loadMoreImages = run (w, 0) events"
      by simp
  qed
qed

theorem loadMoreImages_single_flight_witness:
  "\<not> isLoading gallery_page
   \<and> loadMoreImages_begin gallery_page = (Inr (Some (Some (JStr ''abc''))), gallery_page_loading)
   \<and> isLoading gallery_page_loading
   \<and> net_log gallery_page_loading = net_log gallery_page
   \<and> loadMoreImages_begin gallery_page_loading = (Inr None, gallery_page_loading)
   \<and> loadMoreImages 5 6 gallery_page_loading = (Inr (), gallery_page_loading)
   \<and> run (gallery_page, 0) [Call_loadMoreImages] = (gallery_page_loading, 1)
   \<and> run (gallery_page, 0) [Call_loadMoreImages, Call_loadMoreImages] = (gallery_page_loading, 1)
   \<and> isLoading (snd (loadMoreImages_resume (Inl (Error ''offline'')) 5 6 gallery_page_loading))
       = False"
proof -
  have h1: "\<not> isLoading gallery_page"
    by (simp add: gallery_page_def page_load_def)
  have h2: "loadMoreImages_begin gallery_page
              = (Inr (Some (Some (JStr ''abc''))), gallery_page_loading)"
    by (simp add: loadMoreImages_begin_def js_bind_def getIsLoading_def getHasMore_def
        js_return_def querySelector_load_more_btn_def setIsLoading_def set_button_def
        getNextCursor_def gallery_page_def gallery_page_loading_def page_load_def truthy_def)
  have h3: "isLoading gallery_page_loading"
    by (simp add: gallery_page_loading_def)
  have h4: "run (gallery_page, 0) [Call_loadMoreImages] = (gallery_page_loading, 1)"
    by (simp add: run_def h2)
  have h5: "snd (run (gallery_page, 0) [Call_loadMoreImages]) = 1"
    by (simp add: h4)
  have h6: "run (gallery_page, 0) [Call_loadMoreImages, Call_loadMoreImages]
              = step (run (gallery_page, 0) [Call_loadMoreImages]) Call_loadMoreImages"
    by (simp add: run_def)
  from loadMoreImages_single_flight [of gallery_page_loading 5 6 "Inl (Error ''offline'')" "[]"]
    loadMoreImages_single_flight [of gallery_page 5 6 "Inl (Error ''offline'')" "[Call_loadMoreImages]"]
    h1 h2 h3 h4 h5 h6
  show ?thesis
    by simp
qed

section \<open>The first page and an old entry\<close>




lemma getCachedData_hit_age:
  assumes "getCachedData now1 now2 w = (Inr (Some hit), w')"
  shows "\<not> js_gt (age hit) (as_number (Some CACHE_CONFIG_TTL))"
proof -
  from assms have nd: "\<not> storage_disabled w"
    by (auto simp: getCachedData_disabled)
  from assms have nr: "\<not> recent_reorder (localStorage w REORDER_TIMESTAMP_KEY) now1"
    by (auto simp: getCachedData_recent)
  from assms show ?thesis
    by (auto simp: getCachedData_eq [OF nd nr] split: option.splits sum.splits if_splits)
qed

lemma fetchGalleryImages_shouldRecache:
  assumes "fetchGalleryImages cursor useCache now1 now2 w = (Inr result, w')"
  shows "shouldRecache result \<longleftrightarrow> \<not> fromCache result"
proof (cases "\<not> truthy cursor \<and> useCache")
  case False
  with assms have "\<not> fromCache result"
    by (auto simp: fetchGalleryImages_def try_catch_def js_bind_def js_return_def js_throw_def
        js_lift_def split: option.splits sum.splits prod.splits if_splits)
  then show ?thesis
    by (simp add: shouldRecache_def)
next
  case True
  from getCachedData_returns [of now1 now2 w] obtain r w1 where
    g: "getCachedData now1 now2 w = (Inr r, w1)" by blast
  show ?thesis
  proof (cases r)
    case None
    with assms True g have "\<not> fromCache result"
      by (auto simp: fetchGalleryImages_def try_catch_def js_bind_def js_return_def js_throw_def
          js_lift_def split: option.splits sum.splits prod.splits if_splits)
    then show ?thesis
      by (simp add: shouldRecache_def)
  next
    case (Some hit)
    with assms True g have res: "fromCache result" "cacheAge result = Some (age hit)"
      by (auto simp: fetchGalleryImages_def try_catch_def js_bind_def js_return_def)
    from getCachedData_hit_age g Some have "\<not> js_gt (age hit) (as_number (Some CACHE_CONFIG_TTL))"
      by blast
    then have "\<not> js_gt (age hit) (Some (16 * 60 * 1000))"
      by (auto simp: js_gt_def js_lt_def as_number_def CACHE_CONFIG_TTL_def split: option.splits)
    with res show ?thesis
      by (simp add: shouldRecache_def)
  qed
qed









end
